theory Spec2Isabelle
  imports Main "HOL-Library.AList"
begin

section \<open>JavaScript values\<close>

text \<open>
  The views are JavaScript. A value that may be a string, \<open>undefined\<close> or \<open>null\<close> (a
  model attribute, an optional argument, a property of a server response) is a \<open>jstr\<close>.
\<close>

datatype jstr = Undef | Null | Str string

text \<open>
  Truthiness of such a value: \<open>undefined\<close>, \<open>null\<close> and the empty string are falsy.
\<close>

fun truthy_str :: "jstr \<Rightarrow> bool" where
  "truthy_str Undef = False"
| "truthy_str Null = False"
| "truthy_str (Str s) = (s \<noteq> [])"

text \<open>
  String concatenation \<open>"" + x\<close> prints \<open>undefined\<close> and \<open>null\<close> for the two missing
  values.
\<close>

fun js_str :: "jstr \<Rightarrow> string" where
  "js_str Undef = ''undefined''"
| "js_str Null = ''null''"
| "js_str (Str s) = s"

text \<open>
  Structured values (the details of an error, an XHR object, a user record). A function
  value is modelled by the value it returns when it is called as a method without
  arguments, which is all the code ever does with one (\<open>_.result\<close>).
\<close>

datatype jsval =
    JUndefined
  | JNull
  | JBool bool
  | JNum int
  | JStr string
  | JFun jsval
  | JArr "jsval list"
  | JObj "(string \<times> jsval) list"

fun truthy :: "jsval \<Rightarrow> bool" where
  "truthy JUndefined = False"
| "truthy JNull = False"
| "truthy (JBool b) = b"
| "truthy (JNum n) = (n \<noteq> 0)"
| "truthy (JStr s) = (s \<noteq> [])"
| "truthy (JFun _) = True"
| "truthy (JArr _) = True"
| "truthy (JObj _) = True"

fun is_fun :: "jsval \<Rightarrow> bool" where
  "is_fun (JFun _) = True"
| "is_fun _ = False"

text \<open>Decimal printing of a number, as \<open>"" + n\<close> does for an integer.\<close>

definition digit_char :: "nat \<Rightarrow> char" where
  "digit_char n = char_of (48 + n)"

fun string_of_nat :: "nat \<Rightarrow> string" where
  "string_of_nat n =
     (if n < 10 then [digit_char n]
      else string_of_nat (n div 10) @ [digit_char (n mod 10)])"

declare string_of_nat.simps [simp del]

definition string_of_int :: "int \<Rightarrow> string" where
  "string_of_int k = (if k < 0 then CHR ''-'' # string_of_nat (nat (- k)) else string_of_nat (nat k))"

section \<open>The tool form: data\<close>

text \<open>
  The value of one form input, as \<open>validate\<close> inspects it. \<open>VNull\<close> is \<open>null\<close> or
  \<open>undefined\<close> (\<open>null == l\<close>); \<open>VFalsy\<close> is any other falsy value (\<open>false\<close>, \<open>0\<close>,
  the empty string); \<open>VPlain\<close> is a truthy value whose \<open>batch\<close> property is falsy;
  \<open>VBatch vs\<close> is an object with a truthy \<open>batch\<close> property and the array \<open>values\<close>.
  An element of \<open>values\<close> is either falsy (\<open>SFalsy\<close>) or an object with its \<open>src\<close>
  property (the input-source kind, such as \<open>hda\<close> or \<open>hdca\<close>; possibly missing).
  The type has no batch object without a \<open>values\<close> array: the select fields always
  build one, and \<open>l.values.length\<close> would throw on anything else.
\<close>

datatype selection = SFalsy | SObj jstr

datatype fvalue = VNull | VFalsy | VPlain | VBatch "selection list"

record input_obj =
  optional :: bool

text \<open>
  What the view reads of its form (the form itself is built by another module):
  \<open>form.data.match\<close> (from the name of a submitted input to the identifier of its
  field, falsy when there is none), \<open>form.field_list\<close> and \<open>form.input_list\<close> (both
  keyed by that identifier; the field objects themselves are never inspected, only their
  presence), \<open>form.data.create()\<close> (the current inputs, in the order \<open>for ... in\<close>
  enumerates them) and \<open>form.data.matchResponse\<close> (from the \<open>err_data\<close> of a server
  response to the messages of the fields it concerns, by identifier, in enumeration order).
\<close>

record 'f form =
  match_id :: "string \<Rightarrow> jstr"
  field_list :: "string \<rightharpoonup> 'f"
  input_list :: "string \<rightharpoonup> input_obj"
  create :: "(string \<times> fvalue) list"
  matchResponse :: "jsval \<Rightarrow> (string \<times> string) list"

record request =
  tool_id :: jstr
  tool_version :: jstr
  inputs :: "(string \<times> fvalue) list"

section \<open>Effects\<close>

text \<open>
  What a handler does to the page and the network, in the order it does it. The body of
  a dialog is a small tree: text, a JSON dump of a value or of a job request, and
  elements with a tag, a class and children. A JSON dump carries the value dumped and
  the indentation \<open>JSON.stringify\<close> is given. A dialog has a title, a body and the
  labels of its buttons.
\<close>

datatype node =
    TextNode jstr
  | JsonValue jsval nat
  | JsonRequest request nat
  | Elem string string "node list"

datatype payload =
    Params "(string \<times> string) list"
  | Job request

datatype effect =
    Highlight string "string option"
  | Debug string string
  | Trigger string
  | Callback
  | Resolve
  | Reject
  | Wait bool
  | Request string string payload
  | FormSubmit jstr jstr jstr "(string \<times> fvalue) list"
  | Redirect string
  | ShowMessage string
  | ModalShow jstr node "string list"
  | ModalAddClass string
  | ModalDetails "node list"
  | ModalButton jstr
  | Alert string
  | ConsoleLog string jsval

fun is_request :: "effect \<Rightarrow> bool" where
  "is_request (Request _ _ _) = True"
| "is_request (FormSubmit _ _ _ _) = True"
| "is_request _ = False"

fun is_highlight :: "effect \<Rightarrow> bool" where
  "is_highlight (Highlight _ _) = True"
| "is_highlight _ = False"

fun is_modal :: "effect \<Rightarrow> bool" where
  "is_modal (ModalShow _ _ _) = True"
| "is_modal _ = False"

fun is_alert :: "effect \<Rightarrow> bool" where
  "is_alert (Alert _) = True"
| "is_alert _ = False"

fun is_details :: "effect \<Rightarrow> bool" where
  "is_details (ModalDetails _) = True"
| "is_details _ = False"


section \<open>The tool form: validate\<close>

definition src_msg :: string where
  "src_msg = ''Please select either dataset or dataset list fields for all batch mode fields.''"

definition count_msg :: "int \<Rightarrow> int \<Rightarrow> string" where
  "count_msg d o' =
     ''Please make sure that you select the same number of inputs for all batch mode fields. This field contains <b>''
     @ string_of_int d @ ''</b> selection(s) while a previous field contains <b>''
     @ string_of_int o' @ ''</b>.''"

definition validate_debug :: effect where
  "validate_debug = Debug ''tool-form::validate()'' ''Retrieving input objects failed.''"

text \<open>
  \<open>r && n && s\<close>: the identifier \<open>r\<close> the input name matches, with its input object
  \<open>n\<close>, when the identifier is truthy and both lists have an entry for it.
\<close>

definition resolve :: "'f form \<Rightarrow> string \<Rightarrow> (string \<times> input_obj) option" where
  "resolve f a =
     (case match_id f a of
        Str r \<Rightarrow>
          (if r = [] then None
           else (case input_list f r of
                   None \<Rightarrow> None
                 | Some n \<Rightarrow> (case field_list f r of None \<Rightarrow> None | Some s \<Rightarrow> Some (r, n))))
      | _ \<Rightarrow> None)"

text \<open>
  \<open>u = d > 0 && l.values[0] && l.values[0].src\<close>, reduced to what the code uses of
  it: \<open>Some s\<close> when \<open>u\<close> is truthy (then it is the string \<open>s\<close>), \<open>None\<close> when it is falsy.
\<close>

fun first_src :: "selection list \<Rightarrow> string option" where
  "first_src [] = None"
| "first_src (SFalsy # _) = None"
| "first_src (SObj Undef # _) = None"
| "first_src (SObj Null # _) = None"
| "first_src (SObj (Str s) # _) = (if s = [] then None else Some s)"

text \<open>
  One turn of the loop of \<open>validate\<close>, on the input \<open>a\<close> with value \<open>l\<close>, with the
  loop's variables \<open>o\<close> (the batch size seen first, \<open>-1\<close> before) and \<open>i\<close> (the source
  kind seen first, \<open>null\<close> before). \<open>Inl\<close> is the early \<open>return false\<close>, with the
  highlight that precedes it; \<open>Inr\<close> is the state the loop goes on with, and what
  the turn has logged.
\<close>

definition validate_field ::
  "'f form \<Rightarrow> int \<Rightarrow> string option \<Rightarrow> string \<times> fvalue \<Rightarrow> effect + (int \<times> string option \<times> effect list)" where
  "validate_field f o' i al =
     (case resolve f (fst al) of
        None \<Rightarrow> Inr (o', i, [validate_debug])
      | Some (r, n) \<Rightarrow>
          (if \<not> optional n \<and> snd al = VNull then Inl (Highlight r None)
           else (case snd al of
                   VBatch vs \<Rightarrow>
                     (let d = int (length vs); u = first_src vs in
                      if u \<noteq> None \<and> i \<noteq> None \<and> i \<noteq> u then Inl (Highlight r (Some src_msg))
                      else (let i' = (if u \<noteq> None \<and> i = None then u else i) in
                            if o' = - 1 then Inr (d, i', [])
                            else if o' \<noteq> d then Inl (Highlight r (Some (count_msg d o')))
                            else Inr (o', i', [])))
                 | _ \<Rightarrow> Inr (o', i, []))))"

fun validate_loop ::
  "'f form \<Rightarrow> int \<Rightarrow> string option \<Rightarrow> (string \<times> fvalue) list \<Rightarrow> bool \<times> effect list" where
  "validate_loop f o' i [] = (True, [])"
| "validate_loop f o' i (al # t) =
     (case validate_field f o' i al of
        Inl h \<Rightarrow> (False, [h])
      | Inr (o'', i', es) \<Rightarrow>
          (case validate_loop f o'' i' t of (b, es') \<Rightarrow> (b, es @ es')))"

text \<open>\<open>validate\<close>: the result, and the highlight and log entries it made.\<close>

definition validate :: "'f form \<Rightarrow> request \<Rightarrow> bool \<times> effect list" where
  "validate f e = validate_loop f (- 1) None (inputs e)"

section \<open>The tool form: building the model, parameter changes, submission\<close>

text \<open>
  What the view reads of the page: \<open>Galaxy.root\<close>, \<open>Galaxy.params\<close> (the parameters of
  the page, by name, in enumeration order), whether \<open>Galaxy.modal\<close> is there, whether
  the form's element is still empty, and two functions of jQuery, which is not part of
  these files, taken as they come: \<open>$.param\<close>, and the deep copy \<open>$.extend(true, {}, x)\<close>
  of the inputs of the form (it leaves out the inputs whose value is \<open>undefined\<close>). The
  flat copy \<open>$.extend({}, Galaxy.params)\<close> of the page's parameters, whose values are
  strings, has them all.
\<close>

record env =
  root :: string
  params :: "(string \<times> string) list"
  galaxy_modal :: bool
  el_empty :: bool
  jq_param :: "(string \<times> string) list \<Rightarrow> string"
  jq_extend :: "(string \<times> fvalue) list \<Rightarrow> (string \<times> fvalue) list"

text \<open>The attributes of the tool model that the view reads.\<close>

record attributes =
  a_id :: jstr
  a_version :: jstr
  a_job_id :: jstr
  a_action :: jstr
  a_method :: jstr
  a_enctype :: jstr

text \<open>A parsed error response of the server, as far as the handlers read it.\<close>

record response =
  err_msg :: jstr
  err_data :: jsval

text \<open>
  \<open>buildmodel\<close>: the URL and the query data of the request for the tool definition.
  \<open>l.tool_id && delete l.tool_id\<close> removes the parameter only when its value is truthy.
\<close>

definition build_url :: "env \<Rightarrow> attributes \<Rightarrow> string" where
  "build_url g i =
     (if truthy_str (a_job_id i) then root g @ ''api/jobs/'' @ js_str (a_job_id i) @ ''/build_for_rerun''
      else root g @ ''api/tools/'' @ js_str (a_id i) @ ''/build'')"

definition build_data :: "env \<Rightarrow> attributes \<Rightarrow> (string \<times> string) list" where
  "build_data g i =
     (let l = (if truthy_str (a_job_id i) then []
               else (case map_of (params g) ''tool_id'' of
                       None \<Rightarrow> params g
                     | Some v \<Rightarrow> if v = [] then params g else AList.delete ''tool_id'' (params g)))
      in (case a_version i of
            Str v \<Rightarrow> if v = [] then l else AList.update ''tool_version'' v l
          | _ \<Rightarrow> l))"

definition buildmodel :: "env \<Rightarrow> attributes \<Rightarrow> effect list" where
  "buildmodel g i = [Request ''GET'' (build_url g i) (Params (build_data g i))]"




text \<open>\<open>_templateError\<close>: the body of the dialog, with the JSON dump of \<open>e\<close>.\<close>

definition templateError :: "request \<Rightarrow> jstr \<Rightarrow> node" where
  "templateError e t =
     Elem ''div'' ''errormessagelarge''
       [Elem ''p'' []
          [TextNode (Str (''The server could not complete the request. Please contact the Galaxy Team if this error persists. ''
             @ (if truthy_str t then js_str t else [])))],
        Elem ''pre'' [] [JsonRequest e 4]]"

text \<open>
  \<open>submit\<close>, up to the point where it returns; \<open>t\<close> tells whether a completion
  callback was passed. The callbacks of the request it sends run later: the error
  callback is \<open>submit_error\<close>.
\<close>

definition submit_request :: "'f form \<Rightarrow> attributes \<Rightarrow> request" where
  "submit_request f e = \<lparr>tool_id = a_id e, tool_version = a_version e, inputs = create f\<rparr>"

definition submit :: "env \<Rightarrow> 'f form \<Rightarrow> attributes \<Rightarrow> bool \<Rightarrow> effect list" where
  "submit g f e t =
     (let i = submit_request f e in
      Trigger ''reset'' #
      snd (validate f i) @
      (if \<not> fst (validate f i) then
         Debug ''tool-form::submit()'' ''Submission canceled. Validation failed.'' # (if t then [Callback] else [])
       else if a_action e \<noteq> Str (root g @ ''tool_runner/index'') then
         FormSubmit (a_action e) (a_method e) (a_enctype e) (inputs i) # (if t then [Callback] else [])
       else
         [Debug ''tool-form::submit()'' ''Validation complete.'',
          Request ''POST'' (root g @ ''api/tools'') (Job i)]))"

definition submit_matches :: "'f form \<Rightarrow> response option \<Rightarrow> (string \<times> string) list" where
  "submit_matches f e =
     (case e of
        None \<Rightarrow> []
      | Some resp \<Rightarrow> if truthy (err_data resp) then matchResponse f (err_data resp) else [])"

definition submit_error :: "'f form \<Rightarrow> request \<Rightarrow> bool \<Rightarrow> response option \<Rightarrow> effect list" where
  "submit_error f i t e =
     (if t then [Callback] else []) @
     Debug ''tool-form::submit'' ''Submission failed.'' #
     (case submit_matches f e of
        rm # _ \<Rightarrow> [Highlight (fst rm) (Some (snd rm))]
      | [] \<Rightarrow>
          [ModalShow (Str ''Job submission failed'')
             (templateError i (case e of None \<Rightarrow> Undef | Some resp \<Rightarrow> err_msg resp))
             [''Close'']])"

section \<open>The toolshed views\<close>













section \<open>The error dialog\<close>

text \<open>
  The globals the module reads. \<open>Galaxy\<close> may be missing altogether; when it is there,
  \<open>g_modal\<close> tells whether \<open>Galaxy.modal\<close> is truthy. The localisation function and
  the conversion \<open>a + ""\<close> of a value to a string are not part of these files and are
  taken as they come.
\<close>

record galaxy =
  g_config :: jsval
  g_lastAjax :: jsval
  g_user :: jsval
  g_modal :: bool

record window =
  Galaxy :: "galaxy option"
  Raven :: jsval
  userAgent :: jsval
  onLine :: jsval
  localize :: "jstr \<Rightarrow> jstr"
  to_string :: "jsval \<Rightarrow> string"

datatype ret = RetUndefined | RetModal

definition modal_host :: "window \<Rightarrow> bool" where
  "modal_host w = (case Galaxy w of None \<Rightarrow> False | Some g \<Rightarrow> g_modal g)"

definition contact_msg :: "window \<Rightarrow> jstr" where
  "contact_msg w = localize w (Str ''Please contact a Galaxy administrator if the problem persists.'')"


definition details_msg :: "window \<Rightarrow> jstr" where
  "details_msg w =
     localize w (Str ''The following information can assist the developers in finding the source of the error:'')"

text \<open>
  The function that shows the dialog (\<open>t\<close> in the minified file): the dialog, its class,
  and for truthy details the hidden section with the JSON dump and the button that
  toggles it.
\<close>

definition internal_errorModal :: "window \<Rightarrow> jstr \<Rightarrow> jstr \<Rightarrow> jsval \<Rightarrow> effect list" where
  "internal_errorModal w a e t =
     ModalShow e (TextNode a) [''Ok''] #
     ModalAddClass ''error-modal'' #
     (if truthy t then
        [ModalDetails [Elem ''p'' [] [TextNode (details_msg w)], Elem ''pre'' [] [JsonValue t 2]],
         ModalButton (localize w (Str ''Details''))]
      else [])"

definition error_title :: "window \<Rightarrow> jstr \<Rightarrow> jstr" where
  "error_title w e = (if truthy_str (localize w e) then localize w e else localize w (Str ''Error:''))"

definition newlines :: string where
  "newlines = [CHR 0x0A, CHR 0x0A]"

definition errorModal :: "window \<Rightarrow> jstr \<Rightarrow> jstr \<Rightarrow> jsval \<Rightarrow> ret \<times> effect list" where
  "errorModal w a e o' =
     (if truthy_str a then
        (if modal_host w then (RetModal, internal_errorModal w (localize w a) (error_title w e) o')
         else (RetUndefined,
               [Alert (js_str (error_title w e) @ newlines @ js_str (localize w a)),
                ConsoleLog ''error details:'' o']))
      else (RetUndefined, []))"

definition offlineErrorModal :: "window \<Rightarrow> ret \<times> effect list" where
  "offlineErrorModal w =
     errorModal w (localize w (Str ''You appear to be offline. Please check your connection and try again.''))
       (localize w (Str ''Offline?'')) JUndefined"

definition badGatewayErrorModal :: "window \<Rightarrow> ret \<times> effect list" where
  "badGatewayErrorModal w =
     errorModal w
       (Str (js_str (localize w (Str ''Galaxy is currently unreachable. Please try again in a few minutes.''))
              @ '' '' @ js_str (contact_msg w)))
       (localize w (Str ''Cannot connect to Galaxy'')) JUndefined"

subsection \<open>The details of a failed request\<close>

text \<open>
  Underscore's helpers, as its documentation has them, on objects: \<open>obj[key]\<close>;
  \<open>_.result(object, property, fallback)\<close>, which calls the property when it is a
  function; \<open>_.functions(object)\<close>, the names of the function-valued properties (their
  order plays no role below); \<open>_.omit(object, keys)\<close>, a copy without the named
  properties, and the empty object for \<open>null\<close> and \<open>undefined\<close>. A value that is not an
  object has no properties here.
\<close>

fun props :: "jsval \<Rightarrow> (string \<times> jsval) list" where
  "props (JObj kvs) = kvs"
| "props _ = []"

definition get_prop :: "jsval \<Rightarrow> string \<Rightarrow> jsval" where
  "get_prop obj k = (case map_of (props obj) k of None \<Rightarrow> JUndefined | Some v \<Rightarrow> v)"

definition result :: "jsval \<Rightarrow> string \<Rightarrow> jsval \<Rightarrow> jsval" where
  "result obj p fallback =
     (let v = (if obj = JNull \<or> obj = JUndefined then JUndefined else get_prop obj p);
          v' = (if v = JUndefined then fallback else v)
      in (case v' of JFun r \<Rightarrow> r | _ \<Rightarrow> v'))"

definition functions_of :: "jsval \<Rightarrow> string list" where
  "functions_of obj = map fst (filter (\<lambda>kv. is_fun (snd kv)) (props obj))"

definition omit :: "jsval \<Rightarrow> string list \<Rightarrow> jsval" where
  "omit obj keys = JObj (filter (\<lambda>kv. fst kv \<notin> set keys) (props obj))"

text \<open>
  The details (\<open>r\<close> in the minified file), for the model \<open>a\<close>, the XHR object \<open>e\<close> and
  the options \<open>t\<close>. It reads \<open>Galaxy.config\<close>, so without the global \<open>Galaxy\<close> it throws
  (\<open>None\<close>).
\<close>

definition ajaxDetails :: "window \<Rightarrow> jsval \<Rightarrow> jsval \<Rightarrow> jsval \<Rightarrow> jsval option" where
  "ajaxDetails w a e t =
     (case Galaxy w of
        None \<Rightarrow> None
      | Some g \<Rightarrow>
          Some (JObj
            [(''raven'', result (Raven w) ''lastEventId'' JUndefined),
             (''userAgent'', userAgent w),
             (''onLine'', onLine w),
             (''version'', result (g_config g) ''version_major'' JUndefined),
             (''xhr'', omit e (functions_of e)),
             (''options'', omit t [''xhr'']),
             (''url'', result (g_lastAjax g) ''url'' JUndefined),
             (''data'', result (g_lastAjax g) ''data'' JUndefined),
             (''model'', result a ''toJSON'' (JStr (to_string w a))),
             (''user'', omit (result (g_user g) ''toJSON'' JUndefined) [''email''])]))"



section \<open>Reading the claims: batch fields, and sample data\<close>

text \<open>
  The variables of the loop of \<open>validate\<close> after the inputs \<open>xs\<close>, when no turn has
  returned.
\<close>

fun loop_state ::
  "'f form \<Rightarrow> int \<Rightarrow> string option \<Rightarrow> (string \<times> fvalue) list \<Rightarrow> int \<times> string option" where
  "loop_state f o' i [] = (o', i)"
| "loop_state f o' i (al # t) =
     (case validate_field f o' i al of
        Inl h \<Rightarrow> (o', i)
      | Inr (o'', i', es) \<Rightarrow> loop_state f o'' i' t)"

text \<open>
  The batch-mode fields that \<open>validate\<close> looks at: the inputs with a batch value that
  the form resolves, with the identifier of the field, in the order of the inputs; their
  selection counts; their input-source kinds (the truthy \<open>src\<close> of a first selection);
  and the first count and the first kind, as the loop's variables start (\<open>-1\<close> and
  \<open>null\<close>) when there is none.
\<close>

fun batch_fields :: "'f form \<Rightarrow> (string \<times> fvalue) list \<Rightarrow> (string \<times> selection list) list" where
  "batch_fields f [] = []"
| "batch_fields f (al # t) =
     (case resolve f (fst al) of
        None \<Rightarrow> batch_fields f t
      | Some rn \<Rightarrow>
          (case snd al of
             VBatch vs \<Rightarrow> (fst rn, vs) # batch_fields f t
           | _ \<Rightarrow> batch_fields f t))"

definition batch_counts :: "'f form \<Rightarrow> (string \<times> fvalue) list \<Rightarrow> int list" where
  "batch_counts f xs = map (\<lambda>rv. int (length (snd rv))) (batch_fields f xs)"

definition batch_kinds :: "'f form \<Rightarrow> (string \<times> fvalue) list \<Rightarrow> string list" where
  "batch_kinds f xs = List.map_filter (\<lambda>rv. first_src (snd rv)) (batch_fields f xs)"

definition first_count :: "'f form \<Rightarrow> (string \<times> fvalue) list \<Rightarrow> int" where
  "first_count f xs = (case batch_counts f xs of [] \<Rightarrow> - 1 | c # _ \<Rightarrow> c)"

definition first_kind :: "'f form \<Rightarrow> (string \<times> fvalue) list \<Rightarrow> string option" where
  "first_kind f xs = (case batch_kinds f xs of [] \<Rightarrow> None | k # _ \<Rightarrow> Some k)"

declare batch_fields.simps(2) [simp del]

text \<open>
  A form that knows every input but \<open>ghost\<close>, with every input required, and a form
  whose inputs are all optional.
\<close>

definition form0 :: "unit form" where
  "form0 =
     \<lparr>match_id = (\<lambda>a. if a = ''ghost'' then Undef else Str a),
      field_list = (\<lambda>r. Some ()),
      input_list = (\<lambda>r. Some \<lparr>optional = False\<rparr>),
      create = [],
      matchResponse = (\<lambda>d. [])\<rparr>"

definition hda :: selection where
  "hda = SObj (Str ''hda'')"

definition hdca :: selection where
  "hdca = SObj (Str ''hdca'')"

definition req :: "(string \<times> fvalue) list \<Rightarrow> request" where
  "req xs = \<lparr>tool_id = Str ''cat1'', tool_version = Str ''1.0'', inputs = xs\<rparr>"

text \<open>
  Sample pages: with a modal host (\<open>Some True\<close>), with \<open>Galaxy\<close> but without its
  dialog (\<open>Some False\<close>), and without \<open>Galaxy\<close> (\<open>None\<close>); a page of the tool form with
  given parameters, where \<open>$.param\<close> percent-encodes names and values as
  \<open>encodeURIComponent\<close> does and no input is \<open>undefined\<close>, so that the deep copy has
  them all; the attributes of a tool model; and a form with given inputs that matches
  every property of \<open>err_data\<close> to the field of that name.
\<close>

definition win :: "bool option \<Rightarrow> window" where
  "win m =
     \<lparr>Galaxy = (case m of
                  None \<Rightarrow> None
                | Some b \<Rightarrow>
                    Some \<lparr>g_config = JObj [(''version_major'', JStr ''17.09'')],
                          g_lastAjax = JObj [(''url'', JStr ''/api/histories'')],
                          g_user = JObj [(''toJSON'',
                            JFun (JObj [(''username'', JStr ''ada''), (''email'', JStr ''ada@example.org'')]))],
                          g_modal = b\<rparr>),
      Raven = JUndefined,
      userAgent = JStr ''Mozilla'',
      onLine = JBool True,
      localize = (\<lambda>s. s),
      to_string = (\<lambda>v. ''[object Object]'')\<rparr>"

definition hex_digit :: "nat \<Rightarrow> char" where
  "hex_digit n = ''0123456789ABCDEF'' ! n"

definition uri_unreserved :: "char \<Rightarrow> bool" where
  "uri_unreserved c =
     (c \<in> set ''ABCDEFGHIJKLMNOPQRSTUVWXYZabcdefghijklmnopqrstuvwxyz0123456789-_.!~*()'' \<or> c = CHR 0x27)"

definition uri_encode :: "string \<Rightarrow> string" where
  "uri_encode s' =
     concat (map (\<lambda>c. if uri_unreserved c then [c]
                       else [CHR ''%'', hex_digit (of_char c div 16), hex_digit (of_char c mod 16)]) s')"

fun join_amp :: "string list \<Rightarrow> string" where
  "join_amp [] = []"
| "join_amp [x] = x"
| "join_amp (x # y # ys) = x @ ''&'' @ join_amp (y # ys)"

definition env0 :: "(string \<times> string) list \<Rightarrow> env" where
  "env0 ps =
     \<lparr>root = ''/'', params = ps, galaxy_modal = True, el_empty = False,
      jq_param = (\<lambda>kvs. join_amp (map (\<lambda>kv. uri_encode (fst kv) @ ''='' @ uri_encode (snd kv)) kvs)),
      jq_extend = (\<lambda>xs. xs)\<rparr>"

definition attrs :: "jstr \<Rightarrow> jstr \<Rightarrow> attributes" where
  "attrs job ver =
     \<lparr>a_id = Str ''cat1'', a_version = ver, a_job_id = job,
      a_action = Str ''/tool_runner/index'', a_method = Str ''post'', a_enctype = Undef\<rparr>"

definition form1 :: "(string \<times> fvalue) list \<Rightarrow> unit form" where
  "form1 xs =
     \<lparr>match_id = (\<lambda>a. if a = ''ghost'' then Undef else Str a),
      field_list = (\<lambda>r. Some ()),
      input_list = (\<lambda>r. Some \<lparr>optional = False\<rparr>),
      create = xs,
      matchResponse = (\<lambda>d. map (\<lambda>kv. (fst kv, ''invalid'')) (props d))\<rparr>"

section \<open>Properties of validate\<close>

lemma validate_field_cases:
  "validate_field f o' i (a, l) = Inl h \<Longrightarrow> is_highlight h"
  by (auto simp: validate_field_def Let_def split: option.splits if_splits fvalue.splits prod.splits)

lemma validate_field_debug:
  "validate_field f o' i (a, l) = Inr (o'', i', es) \<Longrightarrow> es = [] \<or> es = [validate_debug]"
  by (auto simp: validate_field_def Let_def split: option.splits if_splits fvalue.splits prod.splits)

lemma validate_loop_Inl:
  "validate_field f o' i al = Inl h \<Longrightarrow> validate_loop f o' i (al # t) = (False, [h])"
  by simp

lemma validate_loop_Inr:
  "validate_field f o' i al = Inr (o'', i', es) \<Longrightarrow>
   validate_loop f o' i (al # t) =
     (fst (validate_loop f o'' i' t), es @ snd (validate_loop f o'' i' t))"
  by (simp split: prod.splits)

lemma validate_loop_append:
  "fst (validate_loop f o' i pre) \<Longrightarrow>
   validate_loop f o' i (pre @ rest) =
     (case loop_state f o' i pre of (o'', i') \<Rightarrow>
        (case validate_loop f o'' i' rest of (b, es) \<Rightarrow> (b, snd (validate_loop f o' i pre) @ es)))"
proof (induction pre arbitrary: o' i)
  case Nil
  then show ?case by (simp split: prod.splits)
next
  case (Cons al pre)
  show ?case
  proof (cases "validate_field f o' i al")
    case (Inl h)
    with Cons.prems show ?thesis by simp
  next
    case (Inr st)
    obtain o'' i' es where st: "st = (o'', i', es)" by (cases st) auto
    from Cons.prems Inr st have "fst (validate_loop f o'' i' pre)"
      by (simp split: prod.splits)
    from Cons.IH[OF this] Inr st show ?thesis
      by (simp split: prod.splits)
  qed
qed

lemma validate_loop_required:
  assumes "resolve f a = Some (r, n)" "\<not> optional n"
  shows "validate_loop f o' i ((a, VNull) # post) = (False, [Highlight r None])"
  using assms by (simp add: validate_field_def)

lemma validate_loop_false_mem:
  "al \<in> set xs \<Longrightarrow> (\<And>o' i. \<exists>h. validate_field f o' i al = Inl h) \<Longrightarrow> \<not> fst (validate_loop f o' i xs)"
proof (induction xs arbitrary: o' i)
  case Nil
  then show ?case by simp
next
  case (Cons x xs)
  show ?case
  proof (cases "validate_field f o' i x")
    case (Inl h)
    then show ?thesis by simp
  next
    case (Inr st)
    obtain o'' i' es where st: "st = (o'', i', es)" by (cases st) auto
    from Cons.prems(2)[of o' i] Inr have "al \<noteq> x" by auto
    with Cons.prems(1) have "al \<in> set xs" by simp
    from Cons.IH[OF this Cons.prems(2), of o'' i'] Inr st show ?thesis
      by (simp add: validate_loop_Inr del: validate_loop.simps)
  qed
qed

lemma required_field_fails:
  assumes "resolve f a = Some (r, n)" "\<not> optional n"
  shows "\<exists>h. validate_field f o' i (a, VNull) = Inl h"
  using assms by (simp add: validate_field_def)

lemma validate_loop_required_mem:
  assumes "(a, VNull) \<in> set xs" "resolve f a = Some (r, n)" "\<not> optional n"
  shows "\<not> fst (validate_loop f o' i xs)"
  using assms(1) required_field_fails[OF assms(2,3)] by (rule validate_loop_false_mem)

lemma validate_loop_shape:
  "validate_loop f o' i xs = (b, es) \<Longrightarrow>
     (if b then set es \<subseteq> {validate_debug}
      else (\<exists>ds h. es = ds @ [h] \<and> is_highlight h \<and> set ds \<subseteq> {validate_debug}))"
proof (induction xs arbitrary: o' i b es)
  case Nil
  then show ?case by auto
next
  case (Cons al xs)
  show ?case
  proof (cases "validate_field f o' i al")
    case (Inl h)
    with Cons.prems have "b = False" "es = [h]" by auto
    moreover from Inl have "is_highlight h" using validate_field_cases[of f o' i "fst al" "snd al" h] by simp
    ultimately show ?thesis by simp
  next
    case (Inr st)
    obtain o'' i' es0 where st: "st = (o'', i', es0)" by (cases st) auto
    obtain b' es' where rec: "validate_loop f o'' i' xs = (b', es')" by (cases "validate_loop f o'' i' xs") auto
    from Cons.prems Inr st rec have eq: "b = b'" "es = es0 @ es'" by auto
    from Inr st have d: "set es0 \<subseteq> {validate_debug}"
      using validate_field_debug[of f o' i "fst al" "snd al" o'' i' es0] by auto
    show ?thesis
    proof (cases b')
      case True
      with Cons.IH[OF rec] eq d show ?thesis by auto
    next
      case False
      with Cons.IH[OF rec] obtain ds h where
        "es' = ds @ [h]" "is_highlight h" "set ds \<subseteq> {validate_debug}" by auto
      with eq d False have "es = (es0 @ ds) @ [h] \<and> is_highlight h \<and> set (es0 @ ds) \<subseteq> {validate_debug}"
        by auto
      then have "\<exists>ds' h'. es = ds' @ [h'] \<and> is_highlight h' \<and> set ds' \<subseteq> {validate_debug}"
        by blast
      with eq False show ?thesis by simp
    qed
  qed
qed

lemma field_Inr:
  assumes "validate_field f o' i al = Inr (o'', i', es)"
  shows "(batch_fields f (al # xs) = batch_fields f xs \<and> o'' = o' \<and> i' = i) \<or>
         (\<exists>r vs. batch_fields f (al # xs) = (r, vs) # batch_fields f xs \<and>
            (o' = - 1 \<or> o' = int (length vs)) \<and> o'' = int (length vs) \<and>
            (case first_src vs of None \<Rightarrow> i' = i | Some k \<Rightarrow> i' = Some k \<and> (i = None \<or> i = Some k)))"
proof (cases "resolve f (fst al)")
  case None
  with assms show ?thesis by (simp add: validate_field_def batch_fields.simps)
next
  case (Some rn)
  obtain r n where rn: "rn = (r, n)" by (cases rn) auto
  show ?thesis
  proof (cases "snd al")
    case (VBatch vs)
    have "batch_fields f (al # xs) = (r, vs) # batch_fields f xs \<and>
            (o' = - 1 \<or> o' = int (length vs)) \<and> o'' = int (length vs) \<and>
            (case first_src vs of None \<Rightarrow> i' = i | Some k \<Rightarrow> i' = Some k \<and> (i = None \<or> i = Some k))"
      using assms Some rn VBatch
      by (auto simp: validate_field_def Let_def batch_fields.simps split: option.splits if_splits)
    then show ?thesis by blast
  qed (use assms Some rn in \<open>auto simp: validate_field_def batch_fields.simps split: if_splits\<close>)
qed

lemma field_Inl:
  assumes "validate_field f o' i al = Inl h"
  shows "(\<exists>r. h = Highlight r None) \<or> (\<exists>r. h = Highlight r (Some src_msg)) \<or>
         (\<exists>r vs. h = Highlight r (Some (count_msg (int (length vs)) o')) \<and> o' \<noteq> - 1 \<and>
            o' \<noteq> int (length vs) \<and> batch_fields f (al # xs) = (r, vs) # batch_fields f xs)"
proof (cases "resolve f (fst al)")
  case None
  with assms show ?thesis by (simp add: validate_field_def batch_fields.simps)
next
  case (Some rn)
  obtain r n where rn: "rn = (r, n)" by (cases rn) auto
  show ?thesis
  proof (cases "snd al")
    case (VBatch vs)
    have "h = Highlight r (Some src_msg) \<or>
          (h = Highlight r (Some (count_msg (int (length vs)) o')) \<and> o' \<noteq> - 1 \<and>
            o' \<noteq> int (length vs) \<and> batch_fields f (al # xs) = (r, vs) # batch_fields f xs)"
      using assms Some rn VBatch
      by (auto simp: validate_field_def Let_def batch_fields.simps split: option.splits if_splits)
    then show ?thesis by blast
  qed (use assms Some rn in \<open>auto simp: validate_field_def batch_fields.simps split: if_splits\<close>)
qed

lemma first_count_Cons: "batch_fields f ys = (r, vs) # zs \<Longrightarrow> first_count f ys = int (length vs)"
  by (simp add: first_count_def batch_counts_def)

lemma batch_counts_Cons:
  "batch_fields f ys = (r, vs) # batch_fields f zs \<Longrightarrow> batch_counts f ys = int (length vs) # batch_counts f zs"
  by (simp add: batch_counts_def)

lemma first_count_eq: "batch_fields f ys = batch_fields f zs \<Longrightarrow> first_count f ys = first_count f zs"
  by (simp add: first_count_def batch_counts_def)

lemma batch_counts_eq: "batch_fields f ys = batch_fields f zs \<Longrightarrow> batch_counts f ys = batch_counts f zs"
  by (simp add: batch_counts_def)

lemma first_kind_eq: "batch_fields f ys = batch_fields f zs \<Longrightarrow> first_kind f ys = first_kind f zs"
  by (simp add: first_kind_def batch_kinds_def)

lemma batch_kinds_eq: "batch_fields f ys = batch_fields f zs \<Longrightarrow> batch_kinds f ys = batch_kinds f zs"
  by (simp add: batch_kinds_def)

lemma batch_kinds_Cons:
  "batch_fields f ys = (r, vs) # batch_fields f zs \<Longrightarrow>
   batch_kinds f ys = (case first_src vs of None \<Rightarrow> batch_kinds f zs | Some k \<Rightarrow> k # batch_kinds f zs)"
  by (simp add: batch_kinds_def List.map_filter_simps split: option.splits)

lemma first_kind_Cons:
  "batch_fields f ys = (r, vs) # batch_fields f zs \<Longrightarrow>
   first_kind f ys = (case first_src vs of None \<Rightarrow> first_kind f zs | Some k \<Rightarrow> Some k)"
  by (simp add: first_kind_def batch_kinds_def List.map_filter_simps split: option.splits)

lemma field_Inr_cases:
  assumes "validate_field f o' i al = Inr (o'', i', es)"
  obtains (same) "batch_fields f (al # xs) = batch_fields f xs" "o'' = o'" "i' = i"
    | (batch) r vs where "batch_fields f (al # xs) = (r, vs) # batch_fields f xs"
        "o' = - 1 \<or> o' = int (length vs)" "o'' = int (length vs)"
        "case first_src vs of None \<Rightarrow> i' = i | Some k \<Rightarrow> i' = Some k \<and> (i = None \<or> i = Some k)"
  using field_Inr[OF assms, of xs] by blast

lemma loop_state_pass:
  "fst (validate_loop f o' i xs) \<Longrightarrow>
   loop_state f o' i xs =
     (if o' = - 1 then first_count f xs else o', if i = None then first_kind f xs else i)"
proof (induction xs arbitrary: o' i)
  case Nil
  then show ?case by (simp add: first_count_def first_kind_def batch_counts_def batch_kinds_def List.map_filter_simps)
next
  case (Cons al xs)
  show ?case
  proof (cases "validate_field f o' i al")
    case (Inl h)
    with Cons.prems show ?thesis by simp
  next
    case (Inr st)
    obtain o'' i' es0 where st: "st = (o'', i', es0)" by (cases st) auto
    from Cons.prems Inr st have "fst (validate_loop f o'' i' xs)" by (simp split: prod.splits)
    from Cons.IH[OF this] have ih: "loop_state f o'' i' xs =
      (if o'' = - 1 then first_count f xs else o'', if i' = None then first_kind f xs else i')" .
    have ls: "loop_state f o' i (al # xs) = loop_state f o'' i' xs" using Inr st by simp
    from Inr[unfolded st] show ?thesis
    proof (cases rule: field_Inr_cases[where xs = xs])
      case same
      then show ?thesis using ih ls by (simp add: first_count_eq[OF same(1)] first_kind_eq[OF same(1)])
    next
      case (batch r vs)
      then show ?thesis using ih ls
        by (auto simp: first_count_Cons[OF batch(1)] first_kind_Cons[OF batch(1)] split: option.splits)
    qed
  qed
qed

lemma msgs_distinct: "src_msg \<noteq> count_msg d c"
  by (simp add: src_msg_def count_msg_def)

lemma batch_fields_mem:
  "(a, VBatch vs) \<in> set xs \<Longrightarrow> resolve f a = Some (r, n) \<Longrightarrow> (r, vs) \<in> set (batch_fields f xs)"
  by (induction xs) (auto simp: batch_fields.simps split: option.splits fvalue.splits)

lemma pass_counts:
  "fst (validate_loop f o' i xs) \<Longrightarrow> c \<in> set (batch_counts f xs) \<Longrightarrow>
   c = (if o' = - 1 then first_count f xs else o')"
proof (induction xs arbitrary: o' i)
  case Nil
  then show ?case by (simp add: batch_counts_def)
next
  case (Cons al xs)
  show ?case
  proof (cases "validate_field f o' i al")
    case (Inl h)
    with Cons.prems show ?thesis by simp
  next
    case (Inr st)
    obtain o'' i' es0 where st: "st = (o'', i', es0)" by (cases st) auto
    from Cons.prems Inr st have p: "fst (validate_loop f o'' i' xs)" by (simp split: prod.splits)
    note ih = Cons.IH[OF p]
    from Inr[unfolded st] show ?thesis
    proof (cases rule: field_Inr_cases[where xs = xs])
      case same
      with Cons.prems(2) have "c \<in> set (batch_counts f xs)" by (simp add: batch_counts_eq[OF same(1)])
      from ih[OF this] same show ?thesis by (simp add: first_count_eq[OF same(1)])
    next
      case (batch r vs)
      from Cons.prems(2) have "c = int (length vs) \<or> c \<in> set (batch_counts f xs)"
        by (auto simp: batch_counts_Cons[OF batch(1)])
      then show ?thesis using ih batch(2,3) by (auto simp: first_count_Cons[OF batch(1)])
    qed
  qed
qed

lemma pass_kinds:
  "fst (validate_loop f o' i xs) \<Longrightarrow> k \<in> set (batch_kinds f xs) \<Longrightarrow>
   Some k = (if i = None then first_kind f xs else i)"
proof (induction xs arbitrary: o' i)
  case Nil
  then show ?case by (simp add: batch_kinds_def List.map_filter_simps)
next
  case (Cons al xs)
  show ?case
  proof (cases "validate_field f o' i al")
    case (Inl h)
    with Cons.prems show ?thesis by simp
  next
    case (Inr st)
    obtain o'' i' es0 where st: "st = (o'', i', es0)" by (cases st) auto
    from Cons.prems Inr st have p: "fst (validate_loop f o'' i' xs)" by (simp split: prod.splits)
    note ih = Cons.IH[OF p]
    from Inr[unfolded st] show ?thesis
    proof (cases rule: field_Inr_cases[where xs = xs])
      case same
      with Cons.prems(2) have "k \<in> set (batch_kinds f xs)" by (simp add: batch_kinds_eq[OF same(1)])
      from ih[OF this] same show ?thesis by (simp add: first_kind_eq[OF same(1)])
    next
      case (batch r vs)
      show ?thesis
      proof (cases "first_src vs")
        case None
        with Cons.prems(2) have "k \<in> set (batch_kinds f xs)" by (simp add: batch_kinds_Cons[OF batch(1)])
        from ih[OF this] batch(4) None show ?thesis by (simp add: first_kind_Cons[OF batch(1)])
      next
        case (Some k')
        with Cons.prems(2) have "k = k' \<or> k \<in> set (batch_kinds f xs)" by (simp add: batch_kinds_Cons[OF batch(1)])
        then show ?thesis using ih batch(4) Some by (auto simp: first_kind_Cons[OF batch(1)])
      qed
    qed
  qed
qed

lemma no_count_msg:
  "(\<And>c. c \<in> set (batch_counts f xs) \<Longrightarrow> c = (if o' = - 1 then first_count f xs else o')) \<Longrightarrow>
   Highlight r (Some (count_msg d c')) \<notin> set (snd (validate_loop f o' i xs))"
proof (induction xs arbitrary: o' i)
  case Nil
  then show ?case by simp
next
  case (Cons al xs)
  show ?case
  proof (cases "validate_field f o' i al")
    case (Inl h)
    from field_Inl[OF Inl, of xs] have "h \<noteq> Highlight r (Some (count_msg d c'))"
    proof (elim disjE exE conjE)
      fix r' vs
      assume a: "o' \<noteq> - 1" "o' \<noteq> int (length vs)" "batch_fields f (al # xs) = (r', vs) # batch_fields f xs"
      have "int (length vs) \<in> set (batch_counts f (al # xs))" by (simp add: batch_counts_Cons[OF a(3)])
      from Cons.prems[OF this] a(1,2) show ?thesis by simp
    qed (use msgs_distinct[of d c'] in auto)
    with Inl show ?thesis by simp
  next
    case (Inr st)
    obtain o'' i' es0 where st: "st = (o'', i', es0)" by (cases st) auto
    have tl: "\<And>c. c \<in> set (batch_counts f xs) \<Longrightarrow> c = (if o'' = - 1 then first_count f xs else o'')"
    proof -
      fix c assume c: "c \<in> set (batch_counts f xs)"
      from Inr[unfolded st]
      show "c = (if o'' = - 1 then first_count f xs else o'')"
      proof (cases rule: field_Inr_cases[where xs = xs])
        case same
        from c have "c \<in> set (batch_counts f (al # xs))" by (simp add: batch_counts_eq[OF same(1)])
        from Cons.prems[OF this] same show ?thesis by (simp add: first_count_eq[OF same(1)])
      next
        case (batch r' vs)
        from c have "c \<in> set (batch_counts f (al # xs))"
          by (auto simp: batch_counts_Cons[OF batch(1)])
        from Cons.prems[OF this] batch(2,3) show ?thesis by (auto simp: first_count_Cons[OF batch(1)])
      qed
    qed
    from Cons.IH[OF tl, of i'] have "Highlight r (Some (count_msg d c')) \<notin> set (snd (validate_loop f o'' i' xs))" by simp
    moreover from Inr st have "es0 = [] \<or> es0 = [validate_debug]"
      using validate_field_debug[of f o' i "fst al" "snd al" o'' i' es0] by simp
    ultimately show ?thesis using Inr st
      by (auto simp: validate_loop_Inr validate_debug_def simp del: validate_loop.simps)
  qed
qed

lemma required_ok:
  "\<lbrakk>\<And>a r n. (a, VNull) \<in> set xs \<Longrightarrow> resolve f a = Some (r, n) \<Longrightarrow> optional n;
    \<And>c. c \<in> set (batch_counts f xs) \<Longrightarrow> c = (if o' = - 1 then first_count f xs else o');
    \<And>k. k \<in> set (batch_kinds f xs) \<Longrightarrow> Some k = (if i = None then first_kind f xs else i)\<rbrakk>
   \<Longrightarrow> fst (validate_loop f o' i xs)"
proof (induction xs arbitrary: o' i)
  case Nil
  then show ?case by simp
next
  case (Cons al xs)
  show ?case
  proof (cases "validate_field f o' i al")
    case (Inl h)
    from field_Inl[OF Inl, of xs] show ?thesis
    proof (elim disjE exE conjE)
      fix r assume h: "h = Highlight r None"
      with Inl obtain n where "resolve f (fst al) = Some (r, n)" "\<not> optional n" "snd al = VNull"
        by (auto simp: validate_field_def Let_def split: option.splits if_splits fvalue.splits)
      moreover have "(fst al, snd al) \<in> set (al # xs)" by simp
      ultimately show ?thesis using Cons.prems(1)[of "fst al" r n] by simp
    next
      fix r assume h: "h = Highlight r (Some src_msg)"
      with Inl obtain n vs k k' where v: "resolve f (fst al) = Some (r, n)" "snd al = VBatch vs"
        "first_src vs = Some k" "i = Some k'" "k \<noteq> k'"
        by (auto simp: validate_field_def Let_def msgs_distinct msgs_distinct[THEN not_sym]
              split: option.splits if_splits fvalue.splits)
      then have bf: "batch_fields f (al # xs) = (r, vs) # batch_fields f xs"
        by (simp add: batch_fields.simps)
      have "k \<in> set (batch_kinds f (al # xs))" using v(3) by (simp add: batch_kinds_Cons[OF bf])
      from Cons.prems(3)[OF this] v(4,5) show ?thesis by simp
    next
      fix r vs
      assume a: "o' \<noteq> - 1" "o' \<noteq> int (length vs)" "batch_fields f (al # xs) = (r, vs) # batch_fields f xs"
      have "int (length vs) \<in> set (batch_counts f (al # xs))" by (simp add: batch_counts_Cons[OF a(3)])
      from Cons.prems(2)[OF this] a(1,2) show ?thesis by simp
    qed
  next
    case (Inr st)
    obtain o'' i' es0 where st: "st = (o'', i', es0)" by (cases st) auto
    have "fst (validate_loop f o'' i' xs)"
    proof (rule Cons.IH)
      fix a r n assume "(a, VNull) \<in> set xs" "resolve f a = Some (r, n)"
      then show "optional n" using Cons.prems(1)[of a r n] by simp
    next
      fix c assume c: "c \<in> set (batch_counts f xs)"
      from Inr[unfolded st]
      show "c = (if o'' = - 1 then first_count f xs else o'')"
      proof (cases rule: field_Inr_cases[where xs = xs])
        case same
        from c have "c \<in> set (batch_counts f (al # xs))" by (simp add: batch_counts_eq[OF same(1)])
        from Cons.prems(2)[OF this] same show ?thesis by (simp add: first_count_eq[OF same(1)])
      next
        case (batch r' vs)
        from c have "c \<in> set (batch_counts f (al # xs))"
          by (auto simp: batch_counts_Cons[OF batch(1)])
        from Cons.prems(2)[OF this] batch(2,3) show ?thesis by (auto simp: first_count_Cons[OF batch(1)])
      qed
    next
      fix k assume k: "k \<in> set (batch_kinds f xs)"
      from Inr[unfolded st]
      show "Some k = (if i' = None then first_kind f xs else i')"
      proof (cases rule: field_Inr_cases[where xs = xs])
        case same
        from k have "k \<in> set (batch_kinds f (al # xs))" by (simp add: batch_kinds_eq[OF same(1)])
        from Cons.prems(3)[OF this] same show ?thesis by (simp add: first_kind_eq[OF same(1)])
      next
        case (batch r' vs)
        from k have "k \<in> set (batch_kinds f (al # xs))"
          by (auto simp: batch_kinds_Cons[OF batch(1)] split: option.splits)
        from Cons.prems(3)[OF this] batch(4) show ?thesis
          by (auto simp: first_kind_Cons[OF batch(1)] split: option.splits)
      qed
    qed
    with Inr st show ?thesis by (simp add: validate_loop_Inr del: validate_loop.simps)
  qed
qed


lemma validate_pre: "validate f (e\<lparr>inputs := pre\<rparr>) = validate_loop f (- 1) None pre"
  by (simp add: validate_def)

lemma validate_shape:
  "\<not> fst (validate f e) \<Longrightarrow>
   \<exists>ds h. snd (validate f e) = ds @ [h] \<and> is_highlight h \<and> set ds \<subseteq> {validate_debug}"
proof -
  assume nf: "\<not> fst (validate f e)"
  have "validate_loop f (- 1) None (inputs e) = (False, snd (validate f e))"
    using nf by (simp add: validate_def prod_eq_iff)
  from validate_loop_shape[OF this] show ?thesis by simp
qed

text \<open>
  Claim C1, as the code has it. When an input that the form resolves to a required
  (non-optional) input object has the value \<open>null\<close>, \<open>validate\<close> returns false, so it
  returns true only when no required field is missing. It highlights exactly one field,
  the first in the order of the inputs to fail a check: the required field itself when
  the inputs before it pass, and then without a message.
\<close>

theorem validate_required_field:
  assumes "resolve f a = Some (r, n)" and "\<not> optional n" and "(a, VNull) \<in> set (inputs e)"
  shows "\<not> fst (validate f e) \<and>
         (\<exists>ds h. snd (validate f e) = ds @ [h] \<and> is_highlight h \<and> set ds \<subseteq> {validate_debug}) \<and>
         (\<forall>pre post. inputs e = pre @ (a, VNull) # post \<and> fst (validate f (e\<lparr>inputs := pre\<rparr>)) \<longrightarrow>
            validate f e = (False, snd (validate f (e\<lparr>inputs := pre\<rparr>)) @ [Highlight r None]))"
proof (intro conjI allI impI)
  show nf: "\<not> fst (validate f e)"
    using validate_loop_required_mem[OF assms(3,1,2)] by (simp add: validate_def)
  then show "\<exists>ds h. snd (validate f e) = ds @ [h] \<and> is_highlight h \<and> set ds \<subseteq> {validate_debug}"
    by (rule validate_shape)
next
  fix pre post
  assume h: "inputs e = pre @ (a, VNull) # post \<and> fst (validate f (e\<lparr>inputs := pre\<rparr>))"
  then have p: "fst (validate_loop f (- 1) None pre)" by (simp add: validate_pre)
  from validate_loop_append[OF p, of "(a, VNull) # post"] h
  show "validate f e = (False, snd (validate f (e\<lparr>inputs := pre\<rparr>)) @ [Highlight r None])"
    by (simp add: validate_def validate_loop_required[OF assms(1,2)] split: prod.splits del: validate_loop.simps)
qed

lemma form0_resolve: "a \<noteq> ''ghost'' \<Longrightarrow> a \<noteq> [] \<Longrightarrow> resolve form0 a = Some (a, \<lparr>optional = False\<rparr>)"
  by (simp add: resolve_def form0_def)

text \<open>
  The claim as it is written has every missing required field highlighted. With two of
  them, only the first is: \<open>validate\<close> returns at the first failure.
\<close>

theorem validate_required_field_counterexample:
  "(''c'', VNull) \<in> set (inputs (req [(''b'', VNull), (''c'', VNull)])) \<and>
   resolve form0 ''c'' = Some (''c'', \<lparr>optional = False\<rparr>) \<and>
   \<not> optional \<lparr>optional = False\<rparr> \<and>
   validate form0 (req [(''b'', VNull), (''c'', VNull)]) = (False, [Highlight ''b'' None]) \<and>
   Highlight ''c'' None \<notin> set (snd (validate form0 (req [(''b'', VNull), (''c'', VNull)])))"
  by (simp add: req_def validate_def validate_field_def form0_resolve)

theorem validate_required_field_witness:
  "resolve form0 ''b'' = Some (''b'', \<lparr>optional = False\<rparr>) \<and>
   \<not> optional \<lparr>optional = False\<rparr> \<and>
   (''b'', VNull) \<in> set (inputs (req [(''ghost'', VPlain), (''a'', VPlain), (''b'', VNull), (''c'', VNull)])) \<and>
   fst (validate form0 (req [(''ghost'', VPlain), (''a'', VPlain)])) \<and>
   validate form0 (req [(''ghost'', VPlain), (''a'', VPlain), (''b'', VNull), (''c'', VNull)]) =
     (False, [validate_debug, Highlight ''b'' None])"
proof -
  let ?e = "req [(''ghost'', VPlain), (''a'', VPlain), (''b'', VNull), (''c'', VNull)]"
  have r: "resolve form0 ''b'' = Some (''b'', \<lparr>optional = False\<rparr>)" by (simp add: form0_resolve)
  have o: "\<not> optional \<lparr>optional = False\<rparr>" by simp
  have m: "(''b'', VNull) \<in> set (inputs ?e)" by (simp add: req_def)
  have pre: "validate form0 (req [(''ghost'', VPlain), (''a'', VPlain)]) = (True, [validate_debug])"
    by (simp add: req_def validate_def validate_field_def form0_resolve resolve_def form0_def)
  have eq: "?e\<lparr>inputs := [(''ghost'', VPlain), (''a'', VPlain)]\<rparr> = req [(''ghost'', VPlain), (''a'', VPlain)]"
    by (simp add: req_def)
  have dec: "inputs ?e = [(''ghost'', VPlain), (''a'', VPlain)] @ (''b'', VNull) # [(''c'', VNull)]"
    by (simp add: req_def)
  from validate_required_field[OF r o m] have
    "\<forall>pre post. inputs ?e = pre @ (''b'', VNull) # post \<and> fst (validate form0 (?e\<lparr>inputs := pre\<rparr>)) \<longrightarrow>
       validate form0 ?e = (False, snd (validate form0 (?e\<lparr>inputs := pre\<rparr>)) @ [Highlight ''b'' None])"
    by blast
  then have "inputs ?e = [(''ghost'', VPlain), (''a'', VPlain)] @ (''b'', VNull) # [(''c'', VNull)] \<and>
      fst (validate form0 (?e\<lparr>inputs := [(''ghost'', VPlain), (''a'', VPlain)]\<rparr>)) \<longrightarrow>
       validate form0 ?e = (False, snd (validate form0 (?e\<lparr>inputs := [(''ghost'', VPlain), (''a'', VPlain)]\<rparr>)) @ [Highlight ''b'' None])"
    by blast
  with dec pre eq have "validate form0 ?e = (False, [validate_debug, Highlight ''b'' None])"
    by simp
  with r o m pre show ?thesis by simp
qed


lemma batch_counts_mem:
  "(a, VBatch vs) \<in> set xs \<Longrightarrow> resolve f a = Some (r, n) \<Longrightarrow> int (length vs) \<in> set (batch_counts f xs)"
  using batch_fields_mem[of a vs xs f r n] by (force simp: batch_counts_def)

lemma batch_kinds_mem:
  "(a, VBatch vs) \<in> set xs \<Longrightarrow> resolve f a = Some (r, n) \<Longrightarrow> first_src vs = Some k \<Longrightarrow>
   k \<in> set (batch_kinds f xs)"
  using batch_fields_mem[of a vs xs f r n] by (force simp: batch_kinds_def List.map_filter_def)

lemma batch_counts_nonneg: "c \<in> set (batch_counts f xs) \<Longrightarrow> 0 \<le> c"
  by (auto simp: batch_counts_def)

lemma validate_prefix:
  assumes "inputs e = pre @ rest" and "fst (validate f (e\<lparr>inputs := pre\<rparr>))"
  shows "validate f e =
           (fst (validate_loop f (first_count f pre) (first_kind f pre) rest),
            snd (validate f (e\<lparr>inputs := pre\<rparr>)) @
            snd (validate_loop f (first_count f pre) (first_kind f pre) rest))"
proof -
  from assms(2) have p: "fst (validate_loop f (- 1) None pre)" by (simp add: validate_def)
  from validate_loop_append[OF p, of rest] loop_state_pass[OF p] assms(1)
  show ?thesis by (simp add: validate_def split: prod.splits)
qed

text \<open>
  Claim C2, as the code has it. When two batch-mode fields that the form resolves have
  different selection counts, \<open>validate\<close> returns false and highlights exactly one field,
  the first in the order of the inputs to fail a check. When the inputs before a resolved
  batch field pass, its count differs from the count \<open>c\<close> of the first batch field
  before it, and its source kind does not conflict, that field is the one highlighted,
  with the message that states its own count and \<open>c\<close>. When all resolved batch fields
  have the same count, no field is highlighted with a count message; and \<open>validate\<close>
  returns true when, besides, their source kinds agree and no required field is missing.
\<close>

theorem validate_batch_counts:
  "((a1, VBatch v1) \<in> set (inputs e) \<and> (a2, VBatch v2) \<in> set (inputs e) \<and>
    resolve f a1 = Some (r1, n1) \<and> resolve f a2 = Some (r2, n2) \<and> length v1 \<noteq> length v2 \<longrightarrow>
      \<not> fst (validate f e) \<and>
      (\<exists>ds h. snd (validate f e) = ds @ [h] \<and> is_highlight h \<and> set ds \<subseteq> {validate_debug})) \<and>
   (inputs e = pre @ (a, VBatch vs) # post \<and> fst (validate f (e\<lparr>inputs := pre\<rparr>)) \<and>
    resolve f a = Some (r, n) \<and> batch_counts f pre = c # cs \<and> c \<noteq> int (length vs) \<and>
    (first_src vs = None \<or> first_kind f pre = None \<or> first_kind f pre = first_src vs) \<longrightarrow>
      validate f e =
        (False, snd (validate f (e\<lparr>inputs := pre\<rparr>)) @ [Highlight r (Some (count_msg (int (length vs)) c))])) \<and>
   ((\<forall>k \<in> set (batch_counts f (inputs e)). k = first_count f (inputs e)) \<longrightarrow>
      (\<forall>r' d k. Highlight r' (Some (count_msg d k)) \<notin> set (snd (validate f e)))) \<and>
   ((\<forall>k \<in> set (batch_counts f (inputs e)). k = first_count f (inputs e)) \<and>
    (\<forall>k \<in> set (batch_kinds f (inputs e)). Some k = first_kind f (inputs e)) \<and>
    (\<forall>a' r' n'. (a', VNull) \<in> set (inputs e) \<and> resolve f a' = Some (r', n') \<longrightarrow> optional n') \<longrightarrow>
      fst (validate f e))"
proof (intro conjI impI allI)
  assume h: "(a1, VBatch v1) \<in> set (inputs e) \<and> (a2, VBatch v2) \<in> set (inputs e) \<and>
    resolve f a1 = Some (r1, n1) \<and> resolve f a2 = Some (r2, n2) \<and> length v1 \<noteq> length v2"
  show nf: "\<not> fst (validate f e)"
  proof
    assume "fst (validate f e)"
    then have p: "fst (validate_loop f (- 1) None (inputs e))" by (simp add: validate_def)
    from h have "int (length v1) \<in> set (batch_counts f (inputs e))"
      "int (length v2) \<in> set (batch_counts f (inputs e))"
      by (auto intro: batch_counts_mem)
    from pass_counts[OF p this(1)] pass_counts[OF p this(2)] h show False by simp
  qed
  then show "\<exists>ds h. snd (validate f e) = ds @ [h] \<and> is_highlight h \<and> set ds \<subseteq> {validate_debug}"
    by (rule validate_shape)
next
  assume h: "inputs e = pre @ (a, VBatch vs) # post \<and> fst (validate f (e\<lparr>inputs := pre\<rparr>)) \<and>
    resolve f a = Some (r, n) \<and> batch_counts f pre = c # cs \<and> c \<noteq> int (length vs) \<and>
    (first_src vs = None \<or> first_kind f pre = None \<or> first_kind f pre = first_src vs)"
  then have fc: "first_count f pre = c" by (simp add: first_count_def)
  from h have "c \<in> set (batch_counts f pre)" by simp
  then have c0: "c \<noteq> - 1" using batch_counts_nonneg[of c f pre] by auto
  have "validate_field f c (first_kind f pre) (a, VBatch vs) =
          Inl (Highlight r (Some (count_msg (int (length vs)) c)))"
    using h c0 by (auto simp: validate_field_def Let_def)
  then have "validate_loop f c (first_kind f pre) ((a, VBatch vs) # post) =
          (False, [Highlight r (Some (count_msg (int (length vs)) c))])"
    by simp
  with validate_prefix[of e pre "(a, VBatch vs) # post" f] h fc
  show "validate f e =
        (False, snd (validate f (e\<lparr>inputs := pre\<rparr>)) @ [Highlight r (Some (count_msg (int (length vs)) c))])"
    by (simp del: validate_loop.simps)
next
  fix r' d k
  assume "\<forall>k \<in> set (batch_counts f (inputs e)). k = first_count f (inputs e)"
  then have "\<And>c. c \<in> set (batch_counts f (inputs e)) \<Longrightarrow>
     c = (if (- 1 :: int) = - 1 then first_count f (inputs e) else - 1)" by simp
  from no_count_msg[of f "inputs e" "- 1", OF this]
  show "Highlight r' (Some (count_msg d k)) \<notin> set (snd (validate f e))"
    by (simp add: validate_def)
next
  assume h: "(\<forall>k \<in> set (batch_counts f (inputs e)). k = first_count f (inputs e)) \<and>
    (\<forall>k \<in> set (batch_kinds f (inputs e)). Some k = first_kind f (inputs e)) \<and>
    (\<forall>a' r' n'. (a', VNull) \<in> set (inputs e) \<and> resolve f a' = Some (r', n') \<longrightarrow> optional n')"
  have "fst (validate_loop f (- 1) None (inputs e))"
  proof (rule required_ok)
    fix a' r' n' assume "(a', VNull) \<in> set (inputs e)" "resolve f a' = Some (r', n')"
    with h show "optional n'" by blast
  next
    fix c' assume "c' \<in> set (batch_counts f (inputs e))"
    with h show "c' = (if (- 1 :: int) = - 1 then first_count f (inputs e) else - 1)" by simp
  next
    fix k assume "k \<in> set (batch_kinds f (inputs e))"
    with h show "Some k = (if (None :: string option) = None then first_kind f (inputs e) else None)" by simp
  qed
  then show "fst (validate f e)" by (simp add: validate_def)
qed

text \<open>
  Claim C3, as the code has it. The input-source kind of a batch field is the truthy
  \<open>src\<close> of its first selection. When two batch-mode fields that the form resolves
  have different kinds, \<open>validate\<close> returns false and highlights exactly one field, the
  first in the order of the inputs to fail a check. When the inputs before a resolved
  batch field pass and its kind differs from the first kind seen before it, that field is
  the one highlighted, with the message that asks for dataset or dataset list fields.
\<close>

theorem validate_batch_kinds:
  "((a1, VBatch v1) \<in> set (inputs e) \<and> (a2, VBatch v2) \<in> set (inputs e) \<and>
    resolve f a1 = Some (r1, n1) \<and> resolve f a2 = Some (r2, n2) \<and>
    first_src v1 = Some k1 \<and> first_src v2 = Some k2 \<and> k1 \<noteq> k2 \<longrightarrow>
      \<not> fst (validate f e) \<and>
      (\<exists>ds h. snd (validate f e) = ds @ [h] \<and> is_highlight h \<and> set ds \<subseteq> {validate_debug})) \<and>
   (inputs e = pre @ (a, VBatch vs) # post \<and> fst (validate f (e\<lparr>inputs := pre\<rparr>)) \<and>
    resolve f a = Some (r, n) \<and> first_kind f pre = Some k \<and> first_src vs = Some k' \<and> k \<noteq> k' \<longrightarrow>
      validate f e = (False, snd (validate f (e\<lparr>inputs := pre\<rparr>)) @ [Highlight r (Some src_msg)]))"
proof (intro conjI impI)
  assume h: "(a1, VBatch v1) \<in> set (inputs e) \<and> (a2, VBatch v2) \<in> set (inputs e) \<and>
    resolve f a1 = Some (r1, n1) \<and> resolve f a2 = Some (r2, n2) \<and>
    first_src v1 = Some k1 \<and> first_src v2 = Some k2 \<and> k1 \<noteq> k2"
  show nf: "\<not> fst (validate f e)"
  proof
    assume "fst (validate f e)"
    then have p: "fst (validate_loop f (- 1) None (inputs e))" by (simp add: validate_def)
    from h have "k1 \<in> set (batch_kinds f (inputs e))" "k2 \<in> set (batch_kinds f (inputs e))"
      by (auto intro: batch_kinds_mem)
    from pass_kinds[OF p this(1)] pass_kinds[OF p this(2)] have "Some k1 = Some k2" by simp
    with h show False by simp
  qed
  then show "\<exists>ds h. snd (validate f e) = ds @ [h] \<and> is_highlight h \<and> set ds \<subseteq> {validate_debug}"
    by (rule validate_shape)
next
  assume h: "inputs e = pre @ (a, VBatch vs) # post \<and> fst (validate f (e\<lparr>inputs := pre\<rparr>)) \<and>
    resolve f a = Some (r, n) \<and> first_kind f pre = Some k \<and> first_src vs = Some k' \<and> k \<noteq> k'"
  have "validate_field f (first_count f pre) (Some k) (a, VBatch vs) = Inl (Highlight r (Some src_msg))"
    using h by (auto simp: validate_field_def Let_def)
  then have "validate_loop f (first_count f pre) (Some k) ((a, VBatch vs) # post) =
          (False, [Highlight r (Some src_msg)])"
    by simp
  with validate_prefix[of e pre "(a, VBatch vs) # post" f] h
  show "validate f e = (False, snd (validate f (e\<lparr>inputs := pre\<rparr>)) @ [Highlight r (Some src_msg)])"
    by (simp del: validate_loop.simps)
qed

lemma form0_ghost: "resolve form0 ''ghost'' = None"
  by (simp add: resolve_def form0_def)

lemmas form0_eval =
  req_def validate_def validate_field_def form0_resolve form0_ghost batch_counts_def batch_kinds_def
  first_count_def first_kind_def batch_fields.simps hda_def hdca_def Let_def

text \<open>
  The claim as it is written fails twice. The source kinds are compared before the
  counts, so two fields that differ in both get the message about the kinds; and an
  input that the form does not resolve is skipped, whatever its count.
\<close>

theorem validate_batch_counts_counterexample:
  "(''a'', VBatch [hda]) \<in> set (inputs (req [(''a'', VBatch [hda]), (''b'', VBatch [hdca, hdca])])) \<and>
   (''b'', VBatch [hdca, hdca]) \<in> set (inputs (req [(''a'', VBatch [hda]), (''b'', VBatch [hdca, hdca])])) \<and>
   resolve form0 ''a'' = Some (''a'', \<lparr>optional = False\<rparr>) \<and>
   resolve form0 ''b'' = Some (''b'', \<lparr>optional = False\<rparr>) \<and>
   length [hda] \<noteq> length [hdca, hdca] \<and>
   validate form0 (req [(''a'', VBatch [hda]), (''b'', VBatch [hdca, hdca])]) =
     (False, [Highlight ''b'' (Some src_msg)]) \<and>
   src_msg \<noteq> count_msg 2 1 \<and>
   length [hda] \<noteq> length [hda, hda] \<and>
   validate form0 (req [(''ghost'', VBatch [hda]), (''a'', VBatch [hda, hda])]) = (True, [validate_debug])"
  by (simp add: form0_eval msgs_distinct)

theorem validate_batch_counts_witness:
  "(''a'', VBatch [hda]) \<in> set (inputs (req [(''a'', VBatch [hda]), (''b'', VBatch [hda, hda])])) \<and>
   (''b'', VBatch [hda, hda]) \<in> set (inputs (req [(''a'', VBatch [hda]), (''b'', VBatch [hda, hda])])) \<and>
   resolve form0 ''a'' = Some (''a'', \<lparr>optional = False\<rparr>) \<and>
   resolve form0 ''b'' = Some (''b'', \<lparr>optional = False\<rparr>) \<and>
   length [hda] \<noteq> length [hda, hda] \<and>
   fst (validate form0 (req [(''a'', VBatch [hda])])) \<and>
   batch_counts form0 [(''a'', VBatch [hda])] = [1] \<and>
   first_kind form0 [(''a'', VBatch [hda])] = first_src [hda, hda] \<and>
   validate form0 (req [(''a'', VBatch [hda]), (''b'', VBatch [hda, hda])]) =
     (False, [Highlight ''b'' (Some (count_msg 2 1))]) \<and>
   batch_counts form0 (inputs (req [(''a'', VBatch [hda, hda]), (''b'', VBatch [hda, hda])])) = [2, 2] \<and>
   first_count form0 (inputs (req [(''a'', VBatch [hda, hda]), (''b'', VBatch [hda, hda])])) = 2 \<and>
   batch_kinds form0 (inputs (req [(''a'', VBatch [hda, hda]), (''b'', VBatch [hda, hda])])) = [''hda'', ''hda''] \<and>
   first_kind form0 (inputs (req [(''a'', VBatch [hda, hda]), (''b'', VBatch [hda, hda])])) = Some ''hda'' \<and>
   Highlight ''b'' (Some (count_msg 2 2)) \<notin>
     set (snd (validate form0 (req [(''a'', VBatch [hda, hda]), (''b'', VBatch [hda, hda])]))) \<and>
   fst (validate form0 (req [(''a'', VBatch [hda, hda]), (''b'', VBatch [hda, hda])]))"
proof -
  let ?eA = "req [(''a'', VBatch [hda]), (''b'', VBatch [hda, hda])]"
  let ?eB = "req [(''a'', VBatch [hda, hda]), (''b'', VBatch [hda, hda])]"
  let ?n = "\<lparr>optional = False\<rparr>"
  have hA: "(''a'', VBatch [hda]) \<in> set (inputs ?eA) \<and> (''b'', VBatch [hda, hda]) \<in> set (inputs ?eA) \<and>
    resolve form0 ''a'' = Some (''a'', ?n) \<and> resolve form0 ''b'' = Some (''b'', ?n) \<and>
    length [hda] \<noteq> length [hda, hda]"
    by (simp add: req_def form0_resolve)
  have hP: "inputs ?eA = [(''a'', VBatch [hda])] @ (''b'', VBatch [hda, hda]) # [] \<and>
    fst (validate form0 (?eA\<lparr>inputs := [(''a'', VBatch [hda])]\<rparr>)) \<and>
    resolve form0 ''b'' = Some (''b'', ?n) \<and> batch_counts form0 [(''a'', VBatch [hda])] = 1 # [] \<and>
    (1::int) \<noteq> int (length [hda, hda]) \<and>
    (first_src [hda, hda] = None \<or> first_kind form0 [(''a'', VBatch [hda])] = None \<or>
     first_kind form0 [(''a'', VBatch [hda])] = first_src [hda, hda])"
    by (simp add: form0_eval)
  have hB: "(\<forall>k \<in> set (batch_counts form0 (inputs ?eB)). k = first_count form0 (inputs ?eB)) \<and>
    (\<forall>k \<in> set (batch_kinds form0 (inputs ?eB)). Some k = first_kind form0 (inputs ?eB)) \<and>
    (\<forall>a' r' n'. (a', VNull) \<in> set (inputs ?eB) \<and> resolve form0 a' = Some (r', n') \<longrightarrow> optional n')"
    by (simp add: form0_eval)
  note TA = validate_batch_counts[where e = ?eA and f = form0 and ?a1.0 = "''a''" and ?v1.0 = "[hda]"
      and ?a2.0 = "''b''" and ?v2.0 = "[hda, hda]" and ?r1.0 = "''a''" and ?n1.0 = ?n
      and ?r2.0 = "''b''" and ?n2.0 = ?n and pre = "[(''a'', VBatch [hda])]" and a = "''b''"
      and vs = "[hda, hda]" and post = "[]" and r = "''b''" and n = ?n and c = 1 and cs = "[]"]
  note TB = validate_batch_counts[where e = ?eB and f = form0 and ?a1.0 = "''a''" and ?v1.0 = "[hda]"
      and ?a2.0 = "''b''" and ?v2.0 = "[hda, hda]" and ?r1.0 = "''a''" and ?n1.0 = ?n
      and ?r2.0 = "''b''" and ?n2.0 = ?n and pre = "[(''a'', VBatch [hda])]" and a = "''b''"
      and vs = "[hda, hda]" and post = "[]" and r = "''b''" and n = ?n and c = 1 and cs = "[]"]
  from TA hA have 1: "\<not> fst (validate form0 ?eA)" by blast
  from TA hP have 2: "validate form0 ?eA =
     (False, snd (validate form0 (?eA\<lparr>inputs := [(''a'', VBatch [hda])]\<rparr>)) @
        [Highlight ''b'' (Some (count_msg (int (length [hda, hda])) 1))])" by blast
  from TB hB have 3: "Highlight ''b'' (Some (count_msg 2 2)) \<notin> set (snd (validate form0 ?eB))" by blast
  from TB hB have 4: "fst (validate form0 ?eB)" by blast
  have pre: "snd (validate form0 (?eA\<lparr>inputs := [(''a'', VBatch [hda])]\<rparr>)) = []"
    by (simp add: form0_eval)
  from 2 pre have r2: "validate form0 ?eA = (False, [Highlight ''b'' (Some (count_msg 2 1))])" by simp
  have ev: "fst (validate form0 (req [(''a'', VBatch [hda])])) \<and>
    batch_counts form0 [(''a'', VBatch [hda])] = [1] \<and>
    first_kind form0 [(''a'', VBatch [hda])] = first_src [hda, hda] \<and>
    batch_counts form0 (inputs ?eB) = [2, 2] \<and> first_count form0 (inputs ?eB) = 2 \<and>
    batch_kinds form0 (inputs ?eB) = [''hda'', ''hda''] \<and> first_kind form0 (inputs ?eB) = Some ''hda''"
    by (simp add: form0_eval)
  from hA r2 3 4 ev show ?thesis by blast
qed

text \<open>
  The claim as it is written fails twice. A field before the one with the other kind may
  fail the count check first, and then the message is the one about the counts; and an
  input that the form does not resolve is skipped, whatever its kind.
\<close>

theorem validate_batch_kinds_counterexample:
  "(''a'', VBatch [hda]) \<in> set (inputs (req [(''a'', VBatch [hda]), (''b'', VBatch [hda, hda]), (''c'', VBatch [hdca])])) \<and>
   (''c'', VBatch [hdca]) \<in> set (inputs (req [(''a'', VBatch [hda]), (''b'', VBatch [hda, hda]), (''c'', VBatch [hdca])])) \<and>
   resolve form0 ''a'' = Some (''a'', \<lparr>optional = False\<rparr>) \<and>
   resolve form0 ''c'' = Some (''c'', \<lparr>optional = False\<rparr>) \<and>
   first_src [hda] = Some ''hda'' \<and> first_src [hdca] = Some ''hdca'' \<and> ''hda'' \<noteq> ''hdca'' \<and>
   validate form0 (req [(''a'', VBatch [hda]), (''b'', VBatch [hda, hda]), (''c'', VBatch [hdca])]) =
     (False, [Highlight ''b'' (Some (count_msg 2 1))]) \<and>
   count_msg 2 1 \<noteq> src_msg \<and>
   validate form0 (req [(''ghost'', VBatch [hda]), (''c'', VBatch [hdca])]) = (True, [validate_debug])"
  by (simp add: form0_eval msgs_distinct[THEN not_sym])

theorem validate_batch_kinds_witness:
  "(''a'', VBatch [hda]) \<in> set (inputs (req [(''a'', VBatch [hda]), (''b'', VBatch [hdca])])) \<and>
   (''b'', VBatch [hdca]) \<in> set (inputs (req [(''a'', VBatch [hda]), (''b'', VBatch [hdca])])) \<and>
   resolve form0 ''a'' = Some (''a'', \<lparr>optional = False\<rparr>) \<and>
   resolve form0 ''b'' = Some (''b'', \<lparr>optional = False\<rparr>) \<and>
   first_src [hda] = Some ''hda'' \<and> first_src [hdca] = Some ''hdca'' \<and> ''hda'' \<noteq> ''hdca'' \<and>
   fst (validate form0 (req [(''a'', VBatch [hda])])) \<and>
   first_kind form0 [(''a'', VBatch [hda])] = Some ''hda'' \<and>
   validate form0 (req [(''a'', VBatch [hda]), (''b'', VBatch [hdca])]) =
     (False, [Highlight ''b'' (Some src_msg)])"
proof -
  let ?e = "req [(''a'', VBatch [hda]), (''b'', VBatch [hdca])]"
  let ?n = "\<lparr>optional = False\<rparr>"
  have hA: "(''a'', VBatch [hda]) \<in> set (inputs ?e) \<and> (''b'', VBatch [hdca]) \<in> set (inputs ?e) \<and>
    resolve form0 ''a'' = Some (''a'', ?n) \<and> resolve form0 ''b'' = Some (''b'', ?n) \<and>
    first_src [hda] = Some ''hda'' \<and> first_src [hdca] = Some ''hdca'' \<and> ''hda'' \<noteq> ''hdca''"
    by (simp add: req_def form0_resolve hda_def hdca_def)
  have hP: "inputs ?e = [(''a'', VBatch [hda])] @ (''b'', VBatch [hdca]) # [] \<and>
    fst (validate form0 (?e\<lparr>inputs := [(''a'', VBatch [hda])]\<rparr>)) \<and>
    resolve form0 ''b'' = Some (''b'', ?n) \<and> first_kind form0 [(''a'', VBatch [hda])] = Some ''hda'' \<and>
    first_src [hdca] = Some ''hdca'' \<and> ''hda'' \<noteq> ''hdca''"
    by (simp add: form0_eval)
  note T = validate_batch_kinds[where e = ?e and f = form0 and ?a1.0 = "''a''" and ?v1.0 = "[hda]"
      and ?a2.0 = "''b''" and ?v2.0 = "[hdca]" and ?r1.0 = "''a''" and ?n1.0 = ?n
      and ?r2.0 = "''b''" and ?n2.0 = ?n and ?k1.0 = "''hda''" and ?k2.0 = "''hdca''"
      and pre = "[(''a'', VBatch [hda])]" and a = "''b''"
      and vs = "[hdca]" and post = "[]" and r = "''b''" and n = ?n and k = "''hda''" and k' = "''hdca''"]
  from T hA have 1: "\<not> fst (validate form0 ?e)" by blast
  from T hP have 2: "validate form0 ?e =
     (False, snd (validate form0 (?e\<lparr>inputs := [(''a'', VBatch [hda])]\<rparr>)) @ [Highlight ''b'' (Some src_msg)])"
    by blast
  have pre: "snd (validate form0 (?e\<lparr>inputs := [(''a'', VBatch [hda])]\<rparr>)) = []"
    by (simp add: form0_eval)
  have ev: "fst (validate form0 (req [(''a'', VBatch [hda])])) \<and>
    first_kind form0 [(''a'', VBatch [hda])] = Some ''hda''"
    by (simp add: form0_eval)
  from 2 pre have "validate form0 ?e = (False, [Highlight ''b'' (Some src_msg)])" by simp
  with hA ev show ?thesis by blast
qed

section \<open>Properties of the error dialog\<close>

text \<open>
  Claim C4. A call of \<open>errorModal\<close> with a truthy (non-empty) message: when the modal
  host is there (\<open>window.Galaxy\<close> with \<open>Galaxy.modal\<close>), the error is shown as a dialog
  with the title and the message, no alert is raised, and for truthy details the dialog
  gets the section with their JSON dump (and no such section for falsy details);
  otherwise the alert with the title, an empty line and the message is raised, and
  nothing else but a line on the console.
\<close>

theorem errorModal_surfaces:
  assumes "truthy_str a"
  shows "(modal_host w \<longrightarrow>
           fst (errorModal w a e o') = RetModal \<and>
           ModalShow (error_title w e) (TextNode (localize w a)) [''Ok''] \<in> set (snd (errorModal w a e o')) \<and>
           filter is_alert (snd (errorModal w a e o')) = [] \<and>
           (truthy o' \<longrightarrow>
              ModalDetails [Elem ''p'' [] [TextNode (details_msg w)], Elem ''pre'' [] [JsonValue o' 2]]
                \<in> set (snd (errorModal w a e o'))) \<and>
           (\<not> truthy o' \<longrightarrow> filter is_details (snd (errorModal w a e o')) = [])) \<and>
         (\<not> modal_host w \<longrightarrow>
           errorModal w a e o' =
             (RetUndefined,
              [Alert (js_str (error_title w e) @ newlines @ js_str (localize w a)),
               ConsoleLog ''error details:'' o']))"
  using assms by (simp add: errorModal_def internal_errorModal_def)

theorem errorModal_surfaces_witness:
  "truthy_str (Str ''Boom'') \<and> modal_host (win (Some True)) \<and> truthy (JObj [(''status'', JNum 500)]) \<and>
   errorModal (win (Some True)) (Str ''Boom'') Undef (JObj [(''status'', JNum 500)]) =
     (RetModal,
      [ModalShow (Str ''Error:'') (TextNode (Str ''Boom'')) [''Ok''],
       ModalAddClass ''error-modal'',
       ModalDetails
         [Elem ''p'' [] [TextNode (Str ''The following information can assist the developers in finding the source of the error:'')],
          Elem ''pre'' [] [JsonValue (JObj [(''status'', JNum 500)]) 2]],
       ModalButton (Str ''Details'')]) \<and>
   \<not> truthy JUndefined \<and>
   filter is_details (snd (errorModal (win (Some True)) (Str ''Boom'') Undef JUndefined)) = [] \<and>
   \<not> modal_host (win None) \<and> \<not> modal_host (win (Some False)) \<and>
   errorModal (win None) (Str ''Boom'') (Str ''Oops'') JUndefined =
     (RetUndefined, [Alert (''Oops'' @ newlines @ ''Boom''), ConsoleLog ''error details:'' JUndefined])"
proof -
  have t: "truthy_str (Str ''Boom'')" by simp
  note A = errorModal_surfaces[OF t, of "win (Some True)" Undef "JObj [(''status'', JNum 500)]"]
  note B = errorModal_surfaces[OF t, of "win (Some True)" Undef JUndefined]
  note C = errorModal_surfaces[OF t, of "win None" "Str ''Oops''" JUndefined]
  have ev: "modal_host (win (Some True)) \<and> \<not> modal_host (win None) \<and> \<not> modal_host (win (Some False))"
    by (simp add: modal_host_def win_def)
  from B ev have b: "filter is_details (snd (errorModal (win (Some True)) (Str ''Boom'') Undef JUndefined)) = []"
    by simp
  from C ev have c: "errorModal (win None) (Str ''Boom'') (Str ''Oops'') JUndefined =
     (RetUndefined, [Alert (js_str (error_title (win None) (Str ''Oops'')) @ newlines @ js_str (localize (win None) (Str ''Boom''))),
        ConsoleLog ''error details:'' JUndefined])" by simp
  have c': "js_str (error_title (win None) (Str ''Oops'')) = ''Oops'' \<and> js_str (localize (win None) (Str ''Boom'')) = ''Boom''"
    by (simp add: error_title_def win_def)
  have a: "errorModal (win (Some True)) (Str ''Boom'') Undef (JObj [(''status'', JNum 500)]) =
     (RetModal,
      [ModalShow (Str ''Error:'') (TextNode (Str ''Boom'')) [''Ok''],
       ModalAddClass ''error-modal'',
       ModalDetails
         [Elem ''p'' [] [TextNode (Str ''The following information can assist the developers in finding the source of the error:'')],
          Elem ''pre'' [] [JsonValue (JObj [(''status'', JNum 500)]) 2]],
       ModalButton (Str ''Details'')])"
    using A ev
    by (simp add: errorModal_def internal_errorModal_def error_title_def details_msg_def win_def modal_host_def)
  from t ev a b c c' show ?thesis by simp
qed

text \<open>
  Claim C9. A call of \<open>errorModal\<close> with a falsy message (empty or missing) does
  nothing and returns \<open>undefined\<close>, whatever the page, the title and the details.
\<close>

theorem errorModal_falsy_message:
  "\<not> truthy_str a \<Longrightarrow> errorModal w a e o' = (RetUndefined, [])"
  by (simp add: errorModal_def)

theorem errorModal_falsy_message_witness:
  "\<not> truthy_str (Str []) \<and> \<not> truthy_str Undef \<and> \<not> truthy_str Null \<and>
   errorModal (win (Some True)) (Str []) (Str ''Oops'') (JObj [(''status'', JNum 500)]) = (RetUndefined, []) \<and>
   errorModal (win None) Undef Undef JUndefined = (RetUndefined, []) \<and>
   errorModal (win (Some True)) Null Undef JUndefined = (RetUndefined, [])"
proof -
  have 1: "\<not> truthy_str (Str [])" and 2: "\<not> truthy_str Undef" and 3: "\<not> truthy_str Null" by simp_all
  from errorModal_falsy_message[OF 1, of "win (Some True)" "Str ''Oops''" "JObj [(''status'', JNum 500)]"]
    errorModal_falsy_message[OF 2, of "win None" Undef JUndefined]
    errorModal_falsy_message[OF 3, of "win (Some True)" Undef JUndefined] 1 2 3
  show ?thesis by simp
qed

section \<open>Properties of the tool form\<close>

text \<open>
  Claim C7, as the code has it. With a truthy job id the tool definition is fetched
  from the rerun endpoint of the job, and the query data is empty but for
  \<open>tool_version\<close>, which is there when the model has a truthy version. Otherwise it is
  fetched from the build endpoint of the tool (a missing identifier is printed as
  \<open>undefined\<close> or \<open>null\<close>), and the query data is the parameters of the page, from
  which \<open>tool_id\<close> is removed when its value is truthy and kept when it is empty, and in
  which \<open>tool_version\<close> is set to the version of the model when that is truthy. The last
  part says the same of the query data read as a mapping.
\<close>

theorem buildmodel_request:
  "(truthy_str (a_job_id i) \<and> \<not> truthy_str (a_version i) \<longrightarrow>
      buildmodel g i =
        [Request ''GET'' (root g @ ''api/jobs/'' @ js_str (a_job_id i) @ ''/build_for_rerun'') (Params [])]) \<and>
   (truthy_str (a_job_id i) \<and> a_version i = Str v \<and> v \<noteq> [] \<longrightarrow>
      buildmodel g i =
        [Request ''GET'' (root g @ ''api/jobs/'' @ js_str (a_job_id i) @ ''/build_for_rerun'')
           (Params [(''tool_version'', v)])]) \<and>
   (\<not> truthy_str (a_job_id i) \<and> \<not> truthy_str (a_version i) \<longrightarrow>
      buildmodel g i =
        [Request ''GET'' (root g @ ''api/tools/'' @ js_str (a_id i) @ ''/build'')
           (Params (if (\<exists>x. map_of (params g) ''tool_id'' = Some x \<and> x \<noteq> [])
                    then AList.delete ''tool_id'' (params g) else params g))]) \<and>
   (\<not> truthy_str (a_job_id i) \<and> a_version i = Str v \<and> v \<noteq> [] \<longrightarrow>
      buildmodel g i =
        [Request ''GET'' (root g @ ''api/tools/'' @ js_str (a_id i) @ ''/build'')
           (Params (AList.update ''tool_version'' v
              (if (\<exists>x. map_of (params g) ''tool_id'' = Some x \<and> x \<noteq> [])
               then AList.delete ''tool_id'' (params g) else params g)))]) \<and>
   (\<not> truthy_str (a_job_id i) \<longrightarrow>
      (\<exists>l. buildmodel g i =
          [Request ''GET'' (root g @ ''api/tools/'' @ js_str (a_id i) @ ''/build'') (Params l)] \<and>
        (\<forall>k. map_of l k =
           (if k = ''tool_version'' \<and> truthy_str (a_version i) then Some (js_str (a_version i))
            else if k = ''tool_id'' \<and> map_of (params g) ''tool_id'' \<noteq> Some [] then None
            else map_of (params g) k))))"
proof (intro conjI impI)
  assume "truthy_str (a_job_id i) \<and> \<not> truthy_str (a_version i)"
  then show "buildmodel g i =
        [Request ''GET'' (root g @ ''api/jobs/'' @ js_str (a_job_id i) @ ''/build_for_rerun'') (Params [])]"
    by (cases "a_version i") (simp_all add: buildmodel_def build_url_def build_data_def)
next
  assume "truthy_str (a_job_id i) \<and> a_version i = Str v \<and> v \<noteq> []"
  then show "buildmodel g i =
        [Request ''GET'' (root g @ ''api/jobs/'' @ js_str (a_job_id i) @ ''/build_for_rerun'')
           (Params [(''tool_version'', v)])]"
    by (simp add: buildmodel_def build_url_def build_data_def)
next
  assume "\<not> truthy_str (a_job_id i) \<and> \<not> truthy_str (a_version i)"
  then show "buildmodel g i =
        [Request ''GET'' (root g @ ''api/tools/'' @ js_str (a_id i) @ ''/build'')
           (Params (if (\<exists>x. map_of (params g) ''tool_id'' = Some x \<and> x \<noteq> [])
                    then AList.delete ''tool_id'' (params g) else params g))]"
    by (cases "a_version i")
       (auto simp: buildmodel_def build_url_def build_data_def split: option.splits)
next
  assume "\<not> truthy_str (a_job_id i) \<and> a_version i = Str v \<and> v \<noteq> []"
  then show "buildmodel g i =
        [Request ''GET'' (root g @ ''api/tools/'' @ js_str (a_id i) @ ''/build'')
           (Params (AList.update ''tool_version'' v
              (if (\<exists>x. map_of (params g) ''tool_id'' = Some x \<and> x \<noteq> [])
               then AList.delete ''tool_id'' (params g) else params g)))]"
    by (auto simp: buildmodel_def build_url_def build_data_def split: option.splits)
next
  assume nj: "\<not> truthy_str (a_job_id i)"
  have "\<forall>k. map_of (build_data g i) k =
           (if k = ''tool_version'' \<and> truthy_str (a_version i) then Some (js_str (a_version i))
            else if k = ''tool_id'' \<and> map_of (params g) ''tool_id'' \<noteq> Some [] then None
            else map_of (params g) k)"
    using nj
    by (cases "a_version i")
       (auto simp: build_data_def Let_def AList.update_conv' AList.delete_conv' split: option.splits)
  with nj show "\<exists>l. buildmodel g i =
          [Request ''GET'' (root g @ ''api/tools/'' @ js_str (a_id i) @ ''/build'') (Params l)] \<and>
        (\<forall>k. map_of l k =
           (if k = ''tool_version'' \<and> truthy_str (a_version i) then Some (js_str (a_version i))
            else if k = ''tool_id'' \<and> map_of (params g) ''tool_id'' \<noteq> Some [] then None
            else map_of (params g) k))"
    by (simp add: buildmodel_def build_url_def)
qed

text \<open>
  The claim as it is written has the query data without \<open>tool_id\<close>. A page parameter
  \<open>tool_id\<close> with the empty string as value is falsy, and the guard keeps it.
\<close>

theorem buildmodel_request_counterexample:
  "\<not> truthy_str (a_job_id (attrs Undef Undef)) \<and>
   buildmodel (env0 [(''tool_id'', []), (''x'', ''1'')]) (attrs Undef Undef) =
     [Request ''GET'' ''/api/tools/cat1/build'' (Params [(''tool_id'', []), (''x'', ''1'')])] \<and>
   map_of [(''tool_id'', []), (''x'', ''1'' :: string)] ''tool_id'' = Some []"
  by (simp add: buildmodel_def build_url_def build_data_def env0_def attrs_def)

theorem buildmodel_request_witness:
  "truthy_str (a_job_id (attrs (Str ''j7'') Null)) \<and> \<not> truthy_str (a_version (attrs (Str ''j7'') Null)) \<and>
   buildmodel (env0 [(''tool_id'', ''cat1''), (''tool_version'', ''0.9'')]) (attrs (Str ''j7'') Null) =
     [Request ''GET'' ''/api/jobs/j7/build_for_rerun'' (Params [])] \<and>
   a_version (attrs (Str ''j7'') (Str ''1.0'')) = Str ''1.0'' \<and> ''1.0'' \<noteq> [] \<and>
   buildmodel (env0 [(''tool_id'', ''cat1''), (''x'', ''1'')]) (attrs (Str ''j7'') (Str ''1.0'')) =
     [Request ''GET'' ''/api/jobs/j7/build_for_rerun'' (Params [(''tool_version'', ''1.0'')])] \<and>
   \<not> truthy_str (a_job_id (attrs Undef Undef)) \<and> \<not> truthy_str (a_version (attrs Undef Undef)) \<and>
   buildmodel (env0 [(''tool_id'', ''cat1''), (''x'', ''1'')]) (attrs Undef Undef) =
     [Request ''GET'' ''/api/tools/cat1/build'' (Params [(''x'', ''1'')])] \<and>
   \<not> truthy_str (a_job_id (attrs (Str []) (Str ''1.0''))) \<and>
   buildmodel (env0 [(''tool_id'', ''cat1''), (''x'', ''1'')]) (attrs (Str []) (Str ''1.0'')) =
     [Request ''GET'' ''/api/tools/cat1/build'' (Params [(''x'', ''1''), (''tool_version'', ''1.0'')])] \<and>
   buildmodel (env0 [(''x'', ''1'')]) ((attrs Undef Undef)\<lparr>a_id := Null\<rparr>) =
     [Request ''GET'' ''/api/tools/null/build'' (Params [(''x'', ''1'')])]"
proof -
  let ?g = "env0 [(''tool_id'', ''cat1''), (''x'', ''1'')]"
  let ?g' = "env0 [(''tool_id'', ''cat1''), (''tool_version'', ''0.9'')]"
  have h1: "truthy_str (a_job_id (attrs (Str ''j7'') Null)) \<and> \<not> truthy_str (a_version (attrs (Str ''j7'') Null))"
    by (simp add: attrs_def)
  have h2: "truthy_str (a_job_id (attrs (Str ''j7'') (Str ''1.0''))) \<and>
    a_version (attrs (Str ''j7'') (Str ''1.0'')) = Str ''1.0'' \<and> ''1.0'' \<noteq> []"
    by (simp add: attrs_def)
  have h3: "\<not> truthy_str (a_job_id (attrs Undef Undef)) \<and> \<not> truthy_str (a_version (attrs Undef Undef))"
    by (simp add: attrs_def)
  have h4: "\<not> truthy_str (a_job_id (attrs (Str []) (Str ''1.0''))) \<and>
    a_version (attrs (Str []) (Str ''1.0'')) = Str ''1.0'' \<and> ''1.0'' \<noteq> []"
    by (simp add: attrs_def)
  have h5: "\<not> truthy_str (a_job_id ((attrs Undef Undef)\<lparr>a_id := Null\<rparr>)) \<and>
    \<not> truthy_str (a_version ((attrs Undef Undef)\<lparr>a_id := Null\<rparr>))"
    by (simp add: attrs_def)
  note T1 = buildmodel_request[where i = "attrs (Str ''j7'') Null" and g = ?g' and v = "''1.0''"]
  note T2 = buildmodel_request[where i = "attrs (Str ''j7'') (Str ''1.0'')" and g = ?g and v = "''1.0''"]
  note T3 = buildmodel_request[where i = "attrs Undef Undef" and g = ?g and v = "''1.0''"]
  note T4 = buildmodel_request[where i = "attrs (Str []) (Str ''1.0'')" and g = ?g and v = "''1.0''"]
  note T5 = buildmodel_request[where i = "(attrs Undef Undef)\<lparr>a_id := Null\<rparr>" and g = "env0 [(''x'', ''1'')]"
      and v = "''1.0''"]
  from T1 h1 have r1: "buildmodel ?g' (attrs (Str ''j7'') Null) =
     [Request ''GET'' (root ?g' @ ''api/jobs/'' @ js_str (a_job_id (attrs (Str ''j7'') Null)) @ ''/build_for_rerun'')
        (Params [])]" by blast
  from T2 h2 have r2: "buildmodel ?g (attrs (Str ''j7'') (Str ''1.0'')) =
     [Request ''GET'' (root ?g @ ''api/jobs/'' @ js_str (a_job_id (attrs (Str ''j7'') (Str ''1.0''))) @ ''/build_for_rerun'')
        (Params [(''tool_version'', ''1.0'')])]" by blast
  from T3 h3 have r3: "buildmodel ?g (attrs Undef Undef) =
     [Request ''GET'' (root ?g @ ''api/tools/'' @ js_str (a_id (attrs Undef Undef)) @ ''/build'')
        (Params (if (\<exists>x. map_of (params ?g) ''tool_id'' = Some x \<and> x \<noteq> [])
                 then AList.delete ''tool_id'' (params ?g) else params ?g))]" by blast
  from T4 h4 have r4: "buildmodel ?g (attrs (Str []) (Str ''1.0'')) =
     [Request ''GET'' (root ?g @ ''api/tools/'' @ js_str (a_id (attrs (Str []) (Str ''1.0''))) @ ''/build'')
        (Params (AList.update ''tool_version'' ''1.0''
           (if (\<exists>x. map_of (params ?g) ''tool_id'' = Some x \<and> x \<noteq> [])
            then AList.delete ''tool_id'' (params ?g) else params ?g)))]" by blast
  from T5 h5 have r5: "buildmodel (env0 [(''x'', ''1'')]) ((attrs Undef Undef)\<lparr>a_id := Null\<rparr>) =
     [Request ''GET'' (root (env0 [(''x'', ''1'')]) @ ''api/tools/'' @
          js_str (a_id ((attrs Undef Undef)\<lparr>a_id := Null\<rparr>)) @ ''/build'')
        (Params (if (\<exists>x. map_of (params (env0 [(''x'', ''1'')])) ''tool_id'' = Some x \<and> x \<noteq> [])
                 then AList.delete ''tool_id'' (params (env0 [(''x'', ''1'')])) else params (env0 [(''x'', ''1'')])))]"
    by blast
  from h1 h2 h3 h4 r1 r2 r3 r4 r5 show ?thesis
    by (simp add: env0_def attrs_def)
qed

text \<open>
  Claim C5. The error callback of the job submission: when the response has truthy
  \<open>err_data\<close> that the form matches to at least one field, the first matched field is
  highlighted with its message, and no dialog is shown; when nothing matches (no
  response, no \<open>err_data\<close>, or no field for it), the dialog \<open>Job submission failed\<close> is
  shown and no field is highlighted, and the body of the dialog ends with the JSON dump
  of the request.
\<close>

theorem submit_error_surfaces:
  "(e = Some resp \<and> truthy (err_data resp) \<and> matchResponse f (err_data resp) = (r, m) # rest \<longrightarrow>
      Highlight r (Some m) \<in> set (submit_error f i t e) \<and>
      filter is_highlight (submit_error f i t e) = [Highlight r (Some m)] \<and>
      filter is_modal (submit_error f i t e) = []) \<and>
   (submit_matches f e = [] \<longrightarrow>
      filter is_modal (submit_error f i t e) =
        [ModalShow (Str ''Job submission failed'')
           (templateError i (case e of None \<Rightarrow> Undef | Some resp' \<Rightarrow> err_msg resp')) [''Close'']] \<and>
      filter is_highlight (submit_error f i t e) = [] \<and>
      (\<exists>p. templateError i (case e of None \<Rightarrow> Undef | Some resp' \<Rightarrow> err_msg resp') =
            Elem ''div'' ''errormessagelarge'' [p, Elem ''pre'' [] [JsonRequest i 4]]))"
  by (auto simp: submit_error_def submit_matches_def templateError_def)

theorem submit_error_surfaces_witness:
  "truthy (JObj [(''b'', JStr ''bad'')]) \<and>
   matchResponse (form1 []) (JObj [(''b'', JStr ''bad'')]) = (''b'', ''invalid'') # [] \<and>
   submit_error (form1 []) (req []) True (Some \<lparr>err_msg = Str ''failed'', err_data = JObj [(''b'', JStr ''bad'')]\<rparr>) =
     [Callback, Debug ''tool-form::submit'' ''Submission failed.'', Highlight ''b'' (Some ''invalid'')] \<and>
   submit_matches (form1 []) (Some \<lparr>err_msg = Str ''failed'', err_data = JNull\<rparr>) = [] \<and>
   submit_error (form1 []) (req []) True (Some \<lparr>err_msg = Str ''failed'', err_data = JNull\<rparr>) =
     [Callback, Debug ''tool-form::submit'' ''Submission failed.'',
      ModalShow (Str ''Job submission failed'')
        (Elem ''div'' ''errormessagelarge''
          [Elem ''p'' [] [TextNode (Str ''The server could not complete the request. Please contact the Galaxy Team if this error persists. failed'')],
           Elem ''pre'' [] [JsonRequest (req []) 4]])
        [''Close'']]"
  using submit_error_surfaces[of "Some \<lparr>err_msg = Str ''failed'', err_data = JObj [(''b'', JStr ''bad'')]\<rparr>"
      "\<lparr>err_msg = Str ''failed'', err_data = JObj [(''b'', JStr ''bad'')]\<rparr>" "form1 []" "''b''" "''invalid''" "[]" "req []" True]
    submit_error_surfaces[of "Some \<lparr>err_msg = Str ''failed'', err_data = JNull\<rparr>"
      "\<lparr>err_msg = Str ''failed'', err_data = JNull\<rparr>" "form1 []" "''b''" "''invalid''" "[]" "req []" True]
  by (simp add: submit_error_def submit_matches_def templateError_def form1_def)






lemma validate_effects_no_request: "filter is_request (snd (validate f e)) = []"
proof (cases "fst (validate f e)")
  case True
  then have "validate_loop f (- 1) None (inputs e) = (True, snd (validate f e))"
    by (simp add: validate_def prod_eq_iff)
  from validate_loop_shape[OF this] have "set (snd (validate f e)) \<subseteq> {validate_debug}" by simp
  then have "\<forall>x \<in> set (snd (validate f e)). \<not> is_request x" by (auto simp: validate_debug_def)
  then show ?thesis by (simp add: filter_empty_conv)
next
  case False
  from validate_shape[OF this] obtain ds h where
    s: "snd (validate f e) = ds @ [h]" "is_highlight h" "set ds \<subseteq> {validate_debug}" by blast
  then have "\<forall>x \<in> set ds. \<not> is_request x" by (auto simp: validate_debug_def)
  moreover from s(2) have "\<not> is_request h" by (cases h) auto
  ultimately show ?thesis using s(1) by (simp add: filter_empty_conv)
qed

text \<open>
  Claim C8. When \<open>validate\<close> returns false, \<open>submit\<close> does this and no more: it resets
  the form, \<open>validate\<close> highlights the failing field, the cancellation is logged, and
  the completion callback, when one was passed, is called, once and last. No request is
  sent and no form is submitted.
\<close>

theorem submit_validation_failed:
  assumes "\<not> fst (validate f (submit_request f e))"
  shows "submit g f e t =
           Trigger ''reset'' # snd (validate f (submit_request f e)) @
           Debug ''tool-form::submit()'' ''Submission canceled. Validation failed.'' #
           (if t then [Callback] else []) \<and>
         filter is_request (submit g f e t) = [] \<and>
         (t \<longrightarrow> last (submit g f e t) = Callback \<and> filter (\<lambda>x. x = Callback) (submit g f e t) = [Callback])"
proof -
  have eq: "submit g f e t =
           Trigger ''reset'' # snd (validate f (submit_request f e)) @
           Debug ''tool-form::submit()'' ''Submission canceled. Validation failed.'' #
           (if t then [Callback] else [])"
    using assms by (simp add: submit_def Let_def)
  have nr: "filter is_request (snd (validate f (submit_request f e))) = []"
    by (rule validate_effects_no_request)
  have nc: "filter (\<lambda>x. x = Callback) (snd (validate f (submit_request f e))) = []"
  proof -
    from validate_shape[OF assms] obtain ds h where
      s: "snd (validate f (submit_request f e)) = ds @ [h]" "is_highlight h" "set ds \<subseteq> {validate_debug}"
      by blast
    then have "\<forall>x \<in> set ds. x \<noteq> Callback" by (auto simp: validate_debug_def)
    moreover from s(2) have "h \<noteq> Callback" by (cases h) auto
    ultimately show ?thesis using s(1) by (simp add: filter_empty_conv)
  qed
  from eq nr nc show ?thesis by (cases t) simp_all
qed

theorem submit_validation_failed_witness:
  "\<not> fst (validate (form1 [(''a'', VPlain), (''b'', VNull)]) (submit_request (form1 [(''a'', VPlain), (''b'', VNull)]) (attrs Undef Undef))) \<and>
   submit (env0 []) (form1 [(''a'', VPlain), (''b'', VNull)]) (attrs Undef Undef) True =
     [Trigger ''reset'', Highlight ''b'' None,
      Debug ''tool-form::submit()'' ''Submission canceled. Validation failed.'', Callback] \<and>
   submit (env0 []) (form1 [(''a'', VPlain), (''b'', VPlain)]) (attrs Undef Undef) True =
     [Trigger ''reset'', Debug ''tool-form::submit()'' ''Validation complete.'',
      Request ''POST'' ''/api/tools'' (Job (submit_request (form1 [(''a'', VPlain), (''b'', VPlain)]) (attrs Undef Undef)))]"
proof -
  let ?f = "form1 [(''a'', VPlain), (''b'', VNull)]"
  have r: "\<And>a xs. a \<noteq> ''ghost'' \<Longrightarrow> a \<noteq> [] \<Longrightarrow> resolve (form1 xs) a = Some (a, \<lparr>optional = False\<rparr>)"
    by (simp add: resolve_def form1_def)
  have c: "\<And>xs. create (form1 xs) = xs" by (simp add: form1_def)
  have v: "validate ?f (submit_request ?f (attrs Undef Undef)) = (False, [Highlight ''b'' None])"
    by (simp add: validate_def submit_request_def validate_field_def r c)
  then have nf: "\<not> fst (validate ?f (submit_request ?f (attrs Undef Undef)))" by simp
  from submit_validation_failed[OF nf, of "env0 []" True] v
  have "submit (env0 []) ?f (attrs Undef Undef) True =
     [Trigger ''reset'', Highlight ''b'' None,
      Debug ''tool-form::submit()'' ''Submission canceled. Validation failed.'', Callback]" by simp
  moreover have "submit (env0 []) (form1 [(''a'', VPlain), (''b'', VPlain)]) (attrs Undef Undef) True =
     [Trigger ''reset'', Debug ''tool-form::submit()'' ''Validation complete.'',
      Request ''POST'' ''/api/tools'' (Job (submit_request (form1 [(''a'', VPlain), (''b'', VPlain)]) (attrs Undef Undef)))]"
    by (simp add: submit_def Let_def validate_def submit_request_def validate_field_def r c env0_def attrs_def)
  ultimately show ?thesis using nf by simp
qed

lemma omit_functions_no_fun: "omit obj (functions_of obj) = JObj xs \<Longrightarrow> kv \<in> set xs \<Longrightarrow> \<not> is_fun (snd kv)"
  by (force simp: omit_def functions_of_def)

lemma omit_functions_keeps:
  assumes "distinct (map fst (props obj))"
  shows "omit obj (functions_of obj) = JObj (filter (\<lambda>kv. \<not> is_fun (snd kv)) (props obj))"
proof -
  have "\<And>kv. kv \<in> set (props obj) \<Longrightarrow>
          (fst kv \<notin> set (functions_of obj)) = (\<not> is_fun (snd kv))"
  proof -
    fix kv assume m: "kv \<in> set (props obj)"
    show "(fst kv \<notin> set (functions_of obj)) = (\<not> is_fun (snd kv))"
    proof
      assume "fst kv \<notin> set (functions_of obj)"
      with m show "\<not> is_fun (snd kv)" by (force simp: functions_of_def)
    next
      assume nf: "\<not> is_fun (snd kv)"
      show "fst kv \<notin> set (functions_of obj)"
      proof
        assume "fst kv \<in> set (functions_of obj)"
        then obtain kv' where k: "kv' \<in> set (props obj)" "is_fun (snd kv')" "fst kv' = fst kv"
          by (auto simp: functions_of_def)
        from assms m k(1,3) have "kv' = kv"
          by (metis eq_key_imp_eq_value prod.collapse)
        with k(2) nf show False by simp
      qed
    qed
  qed
  then show ?thesis by (simp add: omit_def cong: filter_cong)
qed

text \<open>
  Claim C10. When the details of a failed request are assembled (the global \<open>Galaxy\<close>
  is there; without it reading \<open>Galaxy.config\<close> throws), the user record in them is the
  JSON of the user without the property \<open>email\<close>, and the XHR object in them has no
  function-valued property; it has all its other properties.
\<close>

theorem ajaxDetails_redacted:
  "(Galaxy w = Some g \<longrightarrow>
      (\<exists>p us xs. ajaxDetails w a e t = Some p \<and>
         get_prop p ''user'' = JObj us \<and> ''email'' \<notin> fst ` set us \<and>
         us = filter (\<lambda>kv. fst kv \<noteq> ''email'') (props (result (g_user g) ''toJSON'' JUndefined)) \<and>
         get_prop p ''xhr'' = JObj xs \<and> (\<forall>kv \<in> set xs. \<not> is_fun (snd kv)) \<and>
         (distinct (map fst (props e)) \<longrightarrow> xs = filter (\<lambda>kv. \<not> is_fun (snd kv)) (props e)))) \<and>
   (Galaxy w = None \<longrightarrow> ajaxDetails w a e t = None)"
proof (intro conjI impI)
  assume g: "Galaxy w = Some g"
  let ?us = "filter (\<lambda>kv. fst kv \<noteq> ''email'') (props (result (g_user g) ''toJSON'' JUndefined))"
  let ?xs = "filter (\<lambda>kv. fst kv \<notin> set (functions_of e)) (props e)"
  obtain p where p: "ajaxDetails w a e t = Some p" using g by (simp add: ajaxDetails_def)
  have u: "get_prop p ''user'' = JObj ?us"
    using p g by (auto simp: ajaxDetails_def get_prop_def omit_def)
  have x: "get_prop p ''xhr'' = JObj ?xs"
    using p g by (auto simp: ajaxDetails_def get_prop_def omit_def)
  have 1: "''email'' \<notin> fst ` set ?us" by auto
  have 2: "\<forall>kv \<in> set ?xs. \<not> is_fun (snd kv)"
    using omit_functions_no_fun[of e ?xs] by (simp add: omit_def)
  have 3: "distinct (map fst (props e)) \<longrightarrow> ?xs = filter (\<lambda>kv. \<not> is_fun (snd kv)) (props e)"
    using omit_functions_keeps[of e] by (simp add: omit_def)
  from p u x 1 2 3 show "\<exists>p us xs. ajaxDetails w a e t = Some p \<and>
         get_prop p ''user'' = JObj us \<and> ''email'' \<notin> fst ` set us \<and>
         us = filter (\<lambda>kv. fst kv \<noteq> ''email'') (props (result (g_user g) ''toJSON'' JUndefined)) \<and>
         get_prop p ''xhr'' = JObj xs \<and> (\<forall>kv \<in> set xs. \<not> is_fun (snd kv)) \<and>
         (distinct (map fst (props e)) \<longrightarrow> xs = filter (\<lambda>kv. \<not> is_fun (snd kv)) (props e))"
    by blast
next
  assume "Galaxy w = None"
  then show "ajaxDetails w a e t = None" by (simp add: ajaxDetails_def)
qed

theorem ajaxDetails_redacted_witness:
  "Galaxy (win (Some True)) \<noteq> None \<and>
   map_option (\<lambda>p. get_prop p ''user'')
     (ajaxDetails (win (Some True)) JNull
        (JObj [(''status'', JNum 500), (''abort'', JFun JUndefined), (''responseText'', JStr ''x'')]) JUndefined) =
     Some (JObj [(''username'', JStr ''ada'')]) \<and>
   map_option (\<lambda>p. get_prop p ''xhr'')
     (ajaxDetails (win (Some True)) JNull
        (JObj [(''status'', JNum 500), (''abort'', JFun JUndefined), (''responseText'', JStr ''x'')]) JUndefined) =
     Some (JObj [(''status'', JNum 500), (''responseText'', JStr ''x'')]) \<and>
   Galaxy (win None) = None \<and>
   ajaxDetails (win None) JNull (JObj [(''abort'', JFun JUndefined)]) JUndefined = None"
proof -
  let ?e = "JObj [(''status'', JNum 500), (''abort'', JFun JUndefined), (''responseText'', JStr ''x'')]"
  obtain g where g: "Galaxy (win (Some True)) = Some g"
    "g_user g = JObj [(''toJSON'', JFun (JObj [(''username'', JStr ''ada''), (''email'', JStr ''ada@example.org'')]))]"
    by (simp add: win_def)
  have d: "distinct (map fst (props ?e))" by simp
  from ajaxDetails_redacted[of "win (Some True)" g JNull ?e JUndefined] g(1) d
  obtain p us xs where p: "ajaxDetails (win (Some True)) JNull ?e JUndefined = Some p"
    "get_prop p ''user'' = JObj us"
    "us = filter (\<lambda>kv. fst kv \<noteq> ''email'') (props (result (g_user g) ''toJSON'' JUndefined))"
    "get_prop p ''xhr'' = JObj xs" "xs = filter (\<lambda>kv. \<not> is_fun (snd kv)) (props ?e)"
    by blast
  from p(3) g(2) have us: "us = [(''username'', JStr ''ada'')]"
    by (simp add: result_def get_prop_def)
  from p(5) have xs: "xs = [(''status'', JNum 500), (''responseText'', JStr ''x'')]" by simp
  have n: "Galaxy (win None) = None" by (simp add: win_def)
  from ajaxDetails_redacted[of "win None" g JNull "JObj [(''abort'', JFun JUndefined)]" JUndefined] n
  have "ajaxDetails (win None) JNull (JObj [(''abort'', JFun JUndefined)]) JUndefined = None" by blast
  with p(1,2,4) us xs g(1) n show ?thesis by simp
qed

end
